theory Spec2Isabelle
  imports Complex_Main
begin

section \<open>Data model of the OSQP workspace\<close>

text \<open>
  The C type \<^verbatim>\<open>c_int\<close> is read as \<^typ>\<open>int\<close>. A \<^verbatim>\<open>c_float\<close> value is read as the real
  number it denotes, with \<open>2 ^ 1024\<close> and \<open>- 2 ^ 1024\<close> standing for the two infinities; NaN
  is outside the model. Comparisons of such values are exact; the one arithmetic
  operation on them that \<^verbatim>\<open>osqp.c\<close> reaches, the product in \<^verbatim>\<open>vec_ew_prod\<close>, rounds (section
  "Products of floating-point values"). A C array is a list; a pointer that the code
  may set to \<^verbatim>\<open>OSQP_NULL\<close> is an option. The build modelled is the one with \<^verbatim>\<open>PRINTLEVEL\<close>
  and \<^verbatim>\<open>PROFILING\<close> equal to 0 (no printing, no timer).
\<close>

datatype fault = Null_pointer_dereference

text \<open>
  Modelled from the spec: the macros \<^verbatim>\<open>OSQP_SOLVED\<close>, \<^verbatim>\<open>OSQP_MAX_ITER_REACHED\<close> and
  \<^verbatim>\<open>OSQP_UNSOLVED\<close> are defined in a header outside src/; the spec lists exactly these
  three values of \<^verbatim>\<open>status_val\<close>.
\<close>

datatype osqp_status = OSQP_SOLVED | OSQP_MAX_ITER_REACHED | OSQP_UNSOLVED

text \<open>
  Modelled from the spec: the struct declarations live in \<^verbatim>\<open>osqp.h\<close>, outside src/. The
  records below carry the fields that \<^verbatim>\<open>osqp.c\<close> reads or writes, completed by the fields
  the spec names. A sparse matrix is the CSC triple of the spec.
\<close>

record csc =
  nzmax :: int
  nrows :: int
  ncols :: int
  col_ptr :: "int list"
  row_ind :: "int list"
  val :: "real list"

record Data =
  n :: int
  m :: int
  P :: csc
  q :: "real list"
  A :: csc
  lA :: "real list"
  uA :: "real list"

record Settings =
  rho :: real
  sigma :: real
  alpha :: real
  max_iter :: int
  eps_abs :: real
  eps_rel :: real
  scaling :: int
  scaling_norm :: int
  scaling_iter :: int
  polishing :: int
  pol_refine_iter :: int
  delta :: real
  verbose :: int
  warm_start :: int

record Scaling =
  D :: "real list"
  Dinv :: "real list"
  E :: "real list"
  Einv :: "real list"

record Polish =
  ind_lAct :: "int list"
  ind_uAct :: "int list"
  A2Ared :: "int list"
  x :: "real list"
  Ax :: "real list"

record Solution =
  x :: "real list"
  lambda :: "real list"

record Info =
  iter :: int
  status :: string
  status_val :: osqp_status
  obj_val :: real
  pri_res :: real
  dua_res :: real

record 'p Work =
  data :: Data
  x :: "real list"
  z :: "real list"
  u :: "real list"
  z_prev :: "real list"
  dua_res_ws_n :: "real list"
  dua_res_ws_m :: "real list"
  settings :: Settings
  scaling :: "Scaling option"
  priv :: 'p
  pol :: Polish
  solution :: Solution
  info :: Info

section \<open>Products of floating-point values\<close>

text \<open>
  Modelled from the spec: the typedef of \<^verbatim>\<open>c_float\<close> is in a header outside src/; the
  spec speaks of floating point values, and they are taken to be IEEE 754 binary64
  (\<^verbatim>\<open>double\<close>). The product of two such values is the exact product rounded to the
  nearest value with a 53 bit significand, ties going to the even significand, with
  gradual underflow below \<open>2 ^ - 1022\<close> and overflow to infinity. \<open>round_even\<close> rounds a
  real to the nearest integer, ties to even; \<open>binary64_exp v\<close> is the exponent of the
  binade of \<open>v\<close>; \<open>binary64_raw\<close> rounds a positive real at that exponent;
  \<open>binary64\<close> adds the sign and the overflow. A product with an infinite factor is
  infinite (the product of zero and infinity, a NaN, is outside the model).
\<close>

definition round_even :: "real \<Rightarrow> int" where
  "round_even r =
     (let f = \<lfloor>r\<rfloor>
      in if r - of_int f < 1 / 2 then f
         else if 1 / 2 < r - of_int f then f + 1
         else if even f then f else f + 1)"

definition binary64_exp :: "real \<Rightarrow> int" where
  "binary64_exp v = max (- 1022) \<lfloor>log 2 \<bar>v\<bar>\<rfloor>"

definition binary64_raw :: "real \<Rightarrow> real" where
  "binary64_raw v =
     of_int (round_even (v / 2 powi (binary64_exp v - 52))) * 2 powi (binary64_exp v - 52)"

definition c_float_inf :: real where
  "c_float_inf = 2 powi 1024"

definition binary64_mag :: "real \<Rightarrow> real" where
  "binary64_mag v = min (binary64_raw v) c_float_inf"

definition binary64 :: "real \<Rightarrow> real" where
  "binary64 v = (if v = 0 then 0 else sgn v * binary64_mag \<bar>v\<bar>)"

definition c_float_mul :: "real \<Rightarrow> real \<Rightarrow> real" where
  "c_float_mul a b =
     (if c_float_inf \<le> \<bar>a\<bar> \<or> c_float_inf \<le> \<bar>b\<bar> then sgn a * sgn b * c_float_inf
      else binary64 (a * b))"

section \<open>Dense vector helpers\<close>

text \<open>
  Modelled from the spec: \<^verbatim>\<open>prea_vec_copy\<close>, \<^verbatim>\<open>vec_copy\<close> and \<^verbatim>\<open>vec_ew_prod\<close> are defined
  outside src/. The spec describes them as "copy into pre-allocated destination" and
  "elementwise product". \<^verbatim>\<open>prea_vec_copy(a, b, len)\<close> overwrites the first \<open>len\<close> entries of
  \<open>b\<close> with those of \<open>a\<close>; \<^verbatim>\<open>vec_ew_prod(a, b, len)\<close> multiplies the first \<open>len\<close> entries of
  \<open>b\<close> by those of \<open>a\<close>, each product being a \<^verbatim>\<open>c_float\<close> product; \<^verbatim>\<open>vec_copy(a, len)\<close> returns a fresh array with the first \<open>len\<close>
  entries of \<open>a\<close>. The destination keeps its length.
\<close>

definition prea_vec_copy :: "real list \<Rightarrow> real list \<Rightarrow> int \<Rightarrow> real list" where
  "prea_vec_copy a b len =
     map (\<lambda>j. if j < nat len then a ! j else b ! j) [0..<length b]"

definition vec_ew_prod :: "real list \<Rightarrow> real list \<Rightarrow> int \<Rightarrow> real list" where
  "vec_ew_prod a b len =
     map (\<lambda>j. if j < nat len then c_float_mul (b ! j) (a ! j) else b ! j) [0..<length b]"

definition vec_copy :: "real list \<Rightarrow> int \<Rightarrow> real list" where
  "vec_copy a len = map (\<lambda>j. a ! j) [0..<nat len]"

section \<open>Updating the problem vectors\<close>

text \<open>
  The three update functions test \<^verbatim>\<open>settings->scaling\<close>, where \<^verbatim>\<open>settings\<close> is not a
  parameter or a local of the function: it is whatever object of that name is in scope
  in the translation unit. The model passes that object as the first argument,
  \<open>settings_sym\<close>, next to the workspace. Dereferencing \<^verbatim>\<open>work->scaling\<close> when it is
  \<^verbatim>\<open>OSQP_NULL\<close> is the fault \<^const>\<open>Null_pointer_dereference\<close>.
\<close>

definition osqp_update_lin_cost ::
  "Settings \<Rightarrow> 'p Work \<Rightarrow> real list \<Rightarrow> fault + (int \<times> 'p Work)" where
  "osqp_update_lin_cost settings_sym work q_new =
     (let exitflag = 0;
          work1 = work\<lparr>data := (data work)\<lparr>q := prea_vec_copy q_new (q (data work)) (n (data work))\<rparr>\<rparr>
      in if Settings.scaling settings_sym \<noteq> 0 then
           (case Work.scaling work1 of
              None \<Rightarrow> Inl Null_pointer_dereference
            | Some sc \<Rightarrow>
                Inr (exitflag,
                     work1\<lparr>data := (data work1)\<lparr>q := vec_ew_prod (D sc) (q (data work1)) (n (data work1))\<rparr>\<rparr>))
         else Inr (exitflag, work1))"

function osqp_update_lower_bound_loop :: "int \<Rightarrow> 'p Work \<Rightarrow> int" where
  "osqp_update_lower_bound_loop i work =
     (if i < m (data work) then
        (if lA (data work) ! nat i > uA (data work) ! nat i then 1
         else osqp_update_lower_bound_loop (i + 1) work)
      else 0)"
  by pat_completeness auto
termination
  by (relation "measure (\<lambda>(i, work). nat (m (data work) - i))") auto

definition osqp_update_lower_bound ::
  "Settings \<Rightarrow> 'p Work \<Rightarrow> real list \<Rightarrow> fault + (int \<times> 'p Work)" where
  "osqp_update_lower_bound settings_sym work lA_new =
     (let work1 = work\<lparr>data := (data work)\<lparr>lA := prea_vec_copy lA_new (lA (data work)) (m (data work))\<rparr>\<rparr>
      in if Settings.scaling settings_sym \<noteq> 0 then
           (case Work.scaling work1 of
              None \<Rightarrow> Inl Null_pointer_dereference
            | Some sc \<Rightarrow>
                (let work2 = work1\<lparr>data := (data work1)\<lparr>lA := vec_ew_prod (E sc) (lA (data work1)) (m (data work1))\<rparr>\<rparr>
                 in Inr (osqp_update_lower_bound_loop 0 work2, work2)))
         else Inr (osqp_update_lower_bound_loop 0 work1, work1))"

function osqp_update_upper_bound_loop :: "int \<Rightarrow> 'p Work \<Rightarrow> int" where
  "osqp_update_upper_bound_loop i work =
     (if i < m (data work) then
        (if uA (data work) ! nat i < lA (data work) ! nat i then 1
         else osqp_update_upper_bound_loop (i + 1) work)
      else 0)"
  by pat_completeness auto
termination
  by (relation "measure (\<lambda>(i, work). nat (m (data work) - i))") auto

definition osqp_update_upper_bound ::
  "Settings \<Rightarrow> 'p Work \<Rightarrow> real list \<Rightarrow> fault + (int \<times> 'p Work)" where
  "osqp_update_upper_bound settings_sym work uA_new =
     (let work1 = work\<lparr>data := (data work)\<lparr>uA := prea_vec_copy uA_new (uA (data work)) (m (data work))\<rparr>\<rparr>
      in if Settings.scaling settings_sym \<noteq> 0 then
           (case Work.scaling work1 of
              None \<Rightarrow> Inl Null_pointer_dereference
            | Some sc \<Rightarrow>
                (let work2 = work1\<lparr>data := (data work1)\<lparr>uA := vec_ew_prod (E sc) (uA (data work1)) (m (data work1))\<rparr>\<rparr>
                 in Inr (osqp_update_upper_bound_loop 0 work2, work2)))
         else Inr (osqp_update_upper_bound_loop 0 work1, work1))"

declare osqp_update_lower_bound_loop.simps [simp del]
declare osqp_update_upper_bound_loop.simps [simp del]

section \<open>Collaborators\<close>

text \<open>
  \<^verbatim>\<open>osqp.c\<close> calls functions that are defined in other files of the repository. Those
  whose effect the spec does not pin down are parameters of the model, gathered in one
  record. A function that receives the workspace pointer may change the workspace, so
  it maps a workspace to a workspace; \<^verbatim>\<open>residuals_check\<close> also returns its flag.
  \<^verbatim>\<open>solve_lin_sys\<close> overwrites the vector it is given with the solution (spec, section
  4.4). \<^verbatim>\<open>scale_data\<close> reads the settings, rescales the problem data and stores the
  diagonal scalings (spec, section 4.3). \<open>calloc_Work_ok\<close> tells whether
  \<^verbatim>\<open>c_calloc(1, sizeof(Work))\<close> returns a non-null pointer; every other allocation is taken
  to succeed, since the source never tests its result. \<open>uninit_float\<close> and \<open>uninit_int\<close>
  are the contents of memory obtained from \<^verbatim>\<open>c_malloc\<close>. \<open>status_text\<close> is the table of
  status strings.
\<close>

record 'p ext =
  validate_data :: "Data \<Rightarrow> int"
  validate_settings :: "Settings \<Rightarrow> int"
  calloc_Work_ok :: bool
  uninit_float :: "nat \<Rightarrow> real"
  uninit_int :: "nat \<Rightarrow> int"
  csc_to_triu :: "csc \<Rightarrow> csc"
  copy_csc_mat :: "csc \<Rightarrow> csc"
  scale_data :: "Data \<Rightarrow> Settings \<Rightarrow> Data \<times> Scaling"
  init_priv :: "csc \<Rightarrow> csc \<Rightarrow> Settings \<Rightarrow> int \<Rightarrow> 'p"
  status_text :: "osqp_status \<Rightarrow> string"
  cold_start :: "'p Work \<Rightarrow> 'p Work"
  compute_rhs :: "'p Work \<Rightarrow> 'p Work"
  solve_lin_sys :: "Settings \<Rightarrow> 'p \<Rightarrow> real list \<Rightarrow> real list"
  update_x :: "'p Work \<Rightarrow> 'p Work"
  project_x :: "'p Work \<Rightarrow> 'p Work"
  update_u :: "'p Work \<Rightarrow> 'p Work"
  update_info :: "'p Work \<Rightarrow> int \<Rightarrow> int \<Rightarrow> 'p Work"
  residuals_check :: "'p Work \<Rightarrow> int \<times> 'p Work"
  polish :: "'p Work \<Rightarrow> 'p Work"
  store_solution :: "'p Work \<Rightarrow> 'p Work"

text \<open>
  Modelled from the spec: \<^verbatim>\<open>update_status_string\<close> and \<^verbatim>\<open>copy_settings\<close> are defined
  outside src/. The first writes into \<^verbatim>\<open>info->status\<close> the text that belongs to
  \<^verbatim>\<open>info->status_val\<close> and changes nothing else; the second returns a fresh struct with
  the same field values.
\<close>

definition update_status_string :: "'p ext \<Rightarrow> Info \<Rightarrow> Info" where
  "update_status_string ext info0 = info0\<lparr>status := status_text ext (status_val info0)\<rparr>"

definition copy_settings :: "Settings \<Rightarrow> Settings" where
  "copy_settings s = s"

section \<open>Setup\<close>

text \<open>
  The memory requests that \<^verbatim>\<open>osqp_setup\<close> issues itself are recorded in the order of
  the calls, each with the type of the elements and the number of elements it has
  room for. \<^verbatim>\<open>c_calloc\<close> returns zeroed memory, \<^verbatim>\<open>c_malloc\<close> memory of unspecified
  content.
\<close>

datatype ctype = T_Work | T_Data | T_Polish | T_Solution | T_Info | T_c_float | T_c_int

datatype alloc = C_calloc ctype int | C_malloc ctype int

definition c_calloc_float :: "int \<Rightarrow> real list" where
  "c_calloc_float len = replicate (nat len) 0"

definition c_malloc_float :: "'p ext \<Rightarrow> int \<Rightarrow> real list" where
  "c_malloc_float ext len = map (uninit_float ext) [0..<nat len]"

definition c_malloc_int :: "'p ext \<Rightarrow> int \<Rightarrow> int list" where
  "c_malloc_int ext len = map (uninit_int ext) [0..<nat len]"

definition c_calloc_Info :: Info where
  "c_calloc_Info = \<lparr>iter = 0, status = [], status_val = OSQP_SOLVED, obj_val = 0,
     pri_res = 0, dua_res = 0\<rparr>"

text \<open>
  The result of \<^verbatim>\<open>osqp_setup\<close> is \<open>Inr None\<close> for \<^verbatim>\<open>return OSQP_NULL\<close>, \<open>Inr (Some work)\<close> for
  \<^verbatim>\<open>return work\<close>, and \<open>Inl Null_pointer_dereference\<close> when the function stores through a
  null pointer: after a failed \<^verbatim>\<open>c_calloc\<close> of the workspace the source goes on to
  \<^verbatim>\<open>work->data = c_malloc(sizeof(Data))\<close>, which requests the memory and then stores the
  pointer at \<^verbatim>\<open>work->data\<close> with \<^verbatim>\<open>work\<close> null. The zero bytes of a fresh \<^verbatim>\<open>Info\<close> are overwritten
  at once in the field \<^verbatim>\<open>status_val\<close>, so the constructor chosen for them in
  \<^const>\<open>c_calloc_Info\<close> does not matter.
\<close>

definition osqp_setup ::
  "'p ext \<Rightarrow> Data \<Rightarrow> Settings \<Rightarrow> (fault + 'p Work option) \<times> alloc list" where
  "osqp_setup ext data_in settings_in =
     (if validate_data ext data_in \<noteq> 0 then (Inr None, [])
      else if validate_settings ext settings_in \<noteq> 0 then (Inr None, [])
      else if \<not> calloc_Work_ok ext then
        (Inl Null_pointer_dereference, [C_calloc T_Work 1, C_malloc T_Data 1])
      else
        (let d0 = \<lparr>n = n data_in, m = m data_in,
                    P = csc_to_triu ext (P data_in),
                    q = vec_copy (q data_in) (n data_in),
                    A = copy_csc_mat ext (A data_in),
                    lA = vec_copy (lA data_in) (m data_in),
                    uA = vec_copy (uA data_in) (m data_in)\<rparr>;
             x0 = c_calloc_float (n d0 + m d0);
             z0 = c_calloc_float (n d0 + m d0);
             u0 = c_calloc_float (m d0);
             z_prev0 = c_malloc_float ext (n d0 + m d0);
             ws_n = c_malloc_float ext (n d0);
             ws_m = c_malloc_float ext (m d0);
             s0 = copy_settings settings_in;
             s1 = (if m d0 = 0 then s0\<lparr>polishing := 0\<rparr> else s0);
             (d1, sc) = (if Settings.scaling settings_in \<noteq> 0
                         then (case scale_data ext d0 s1 of (d', sc') \<Rightarrow> (d', Some sc'))
                         else (d0, None));
             pr = init_priv ext (P d1) (A d1) s1 0;
             pl = \<lparr>ind_lAct = c_malloc_int ext (m d1),
                   ind_uAct = c_malloc_int ext (m d1),
                   A2Ared = c_malloc_int ext (m d1),
                   Polish.x = c_malloc_float ext (n d1),
                   Ax = c_malloc_float ext (m d1)\<rparr>;
             sol = \<lparr>Solution.x = c_calloc_float (n d1), lambda = c_calloc_float (m d1)\<rparr>;
             info0 = update_status_string ext (c_calloc_Info\<lparr>status_val := OSQP_UNSOLVED\<rparr>)
         in (Inr (Some \<lparr>data = d1, x = x0, z = z0, u = u0, z_prev = z_prev0,
                         dua_res_ws_n = ws_n, dua_res_ws_m = ws_m, settings = s1,
                         Work.scaling = sc, priv = pr, pol = pl, solution = sol, info = info0\<rparr>),
             [C_calloc T_Work 1, C_malloc T_Data 1,
              C_calloc T_c_float (n d0 + m d0), C_calloc T_c_float (n d0 + m d0),
              C_calloc T_c_float (m d0), C_malloc T_c_float (n d0 + m d0),
              C_malloc T_c_float (n d0), C_malloc T_c_float (m d0),
              C_malloc T_Polish 1, C_malloc T_c_int (m d1), C_malloc T_c_int (m d1),
              C_malloc T_c_int (m d1), C_malloc T_c_float (n d1), C_malloc T_c_float (m d1),
              C_calloc T_Solution 1, C_calloc T_c_float (n d1), C_calloc T_c_float (m d1),
              C_calloc T_Info 1])))"

section \<open>Solve\<close>

text \<open>
  The state of \<^verbatim>\<open>osqp_solve\<close> is the workspace together with the list of calls made so
  far, in execution order. \<open>Call_update_info\<close> carries the iteration counter that is
  passed, \<open>Call_residuals_check\<close> the flag that comes back.
\<close>

datatype call =
    Call_cold_start
  | Call_prea_vec_copy
  | Call_compute_rhs
  | Call_solve_lin_sys
  | Call_update_x
  | Call_project_x
  | Call_update_u
  | Call_update_info int
  | Call_residuals_check int
  | Call_update_status_string
  | Call_polish
  | Call_store_solution

definition step :: "call \<Rightarrow> ('w \<Rightarrow> 'w) \<Rightarrow> 'w \<times> call list \<Rightarrow> 'w \<times> call list" where
  "step c f s = (f (fst s), snd s @ [c])"

text \<open>The body of the \<^verbatim>\<open>for\<close> loop; the flag returned is that of \<^verbatim>\<open>residuals_check\<close>.\<close>

definition admm_iteration ::
  "'p ext \<Rightarrow> int \<Rightarrow> 'p Work \<times> call list \<Rightarrow> int \<times> ('p Work \<times> call list)" where
  "admm_iteration ext it s0 =
     (let s1 = step Call_prea_vec_copy
                 (\<lambda>w. w\<lparr>z_prev := prea_vec_copy (z w) (z_prev w) (n (data w) + m (data w))\<rparr>) s0;
          s2 = step Call_compute_rhs (compute_rhs ext) s1;
          s3 = step Call_solve_lin_sys
                 (\<lambda>w. w\<lparr>x := solve_lin_sys ext (settings w) (priv w) (x w)\<rparr>) s2;
          s4 = step Call_update_x (update_x ext) s3;
          s5 = step Call_project_x (project_x ext) s4;
          s6 = step Call_update_u (update_u ext) s5;
          s7 = step (Call_update_info it) (\<lambda>w. update_info ext w it 0) s6;
          r = residuals_check ext (fst s7)
      in (fst r, (snd r, snd s7 @ [Call_residuals_check (fst r)])))"

text \<open>
  The \<^verbatim>\<open>for\<close> loop: the bound \<^verbatim>\<open>work->settings->max_iter\<close> is read from the current
  workspace before every iteration, and \<^verbatim>\<open>break\<close> leaves the loop when the flag is not 0.
\<close>

partial_function (option) osqp_solve_loop ::
  "'p ext \<Rightarrow> int \<Rightarrow> 'p Work \<times> call list \<Rightarrow> ('p Work \<times> call list) option" where
  "osqp_solve_loop ext it s =
     (if it < max_iter (settings (fst s)) then
        (case admm_iteration ext it s of
           (flag, s') \<Rightarrow> if flag \<noteq> 0 then Some s' else osqp_solve_loop ext (it + 1) s')
      else Some s)"

declare osqp_solve_loop.simps [code]

definition osqp_solve_start :: "'p ext \<Rightarrow> 'p Work \<Rightarrow> 'p Work \<times> call list" where
  "osqp_solve_start ext work =
     (if warm_start (settings work) = 0 then step Call_cold_start (cold_start ext) (work, [])
      else (work, []))"

definition osqp_solve_finish :: "'p ext \<Rightarrow> 'p Work \<times> call list \<Rightarrow> 'p Work \<times> call list" where
  "osqp_solve_finish ext s1 =
     (let s2 = step Call_update_status_string
                 (\<lambda>w. w\<lparr>info := update_status_string ext (info w)\<rparr>) s1;
          s3 = (if polishing (settings (fst s2)) \<noteq> 0 \<and> status_val (info (fst s2)) = OSQP_SOLVED
                then step Call_polish (polish ext) s2 else s2)
      in step Call_store_solution (store_solution ext) s3)"

definition osqp_solve :: "'p ext \<Rightarrow> 'p Work \<Rightarrow> (int \<times> 'p Work \<times> call list) option" where
  "osqp_solve ext work =
     (let exitflag = 0
      in case osqp_solve_loop ext 0 (osqp_solve_start ext work) of
           None \<Rightarrow> None
         | Some s1 \<Rightarrow> Some (exitflag, osqp_solve_finish ext s1))"

text \<open>
  The calls of one iteration and of a run of iterations, as the specification lists
  them: \<open>iteration_calls it r\<close> is iteration number \<open>it\<close> whose check returned \<open>r\<close>, and
  \<open>loop_calls it rs\<close> are consecutive iterations from number \<open>it\<close> on, one for each flag
  in \<open>rs\<close>.
\<close>

definition iteration_calls :: "int \<Rightarrow> int \<Rightarrow> call list" where
  "iteration_calls it r =
     [Call_prea_vec_copy, Call_compute_rhs, Call_solve_lin_sys, Call_update_x,
      Call_project_x, Call_update_u, Call_update_info it, Call_residuals_check r]"

fun loop_calls :: "int \<Rightarrow> int list \<Rightarrow> call list" where
  "loop_calls it [] = []"
| "loop_calls it (r # rs) = iteration_calls it r @ loop_calls (it + 1) rs"

text \<open>
  What the specification says a solve does to the workspace, written without the list
  of calls. \<open>iteration_effect ext it w\<close> is one iteration, number \<open>it\<close>, from the workspace
  \<open>w\<close>: \<open>z\<close> is copied into \<open>z_prev\<close>, the right-hand side is assembled, the linear system
  is solved into \<open>x\<close>, then \<open>x\<close> is updated, \<open>z\<close> projected, \<open>u\<close> updated, the info updated
  and the residuals checked; the result is the flag of the check and the workspace.
  \<open>iterations_effect ext it k w\<close> is the workspace after \<open>k\<close> consecutive iterations
  numbered from \<open>it\<close>, and \<open>iterations_flags ext it k w\<close> lists the flags of their checks.
  \<open>solve_entry_effect\<close> is the cold start; \<open>solve_exit_effect\<close> is what follows the loop:
  the status string, the polish step if polishing is enabled and the status is
  \<^verbatim>\<open>OSQP_SOLVED\<close>, and the stored solution.
\<close>

definition iteration_effect :: "'p ext \<Rightarrow> int \<Rightarrow> 'p Work \<Rightarrow> int \<times> 'p Work" where
  "iteration_effect ext it w =
     (let w1 = w\<lparr>z_prev := prea_vec_copy (z w) (z_prev w) (n (data w) + m (data w))\<rparr>;
          w2 = compute_rhs ext w1;
          w3 = w2\<lparr>x := solve_lin_sys ext (settings w2) (priv w2) (x w2)\<rparr>;
          w4 = update_x ext w3;
          w5 = project_x ext w4;
          w6 = update_u ext w5;
          w7 = update_info ext w6 it 0
      in residuals_check ext w7)"

fun iterations_effect :: "'p ext \<Rightarrow> int \<Rightarrow> nat \<Rightarrow> 'p Work \<Rightarrow> 'p Work" where
  "iterations_effect ext it 0 w = w"
| "iterations_effect ext it (Suc k) w =
     iterations_effect ext (it + 1) k (snd (iteration_effect ext it w))"

fun iterations_flags :: "'p ext \<Rightarrow> int \<Rightarrow> nat \<Rightarrow> 'p Work \<Rightarrow> int list" where
  "iterations_flags ext it 0 w = []"
| "iterations_flags ext it (Suc k) w =
     fst (iteration_effect ext it w)
       # iterations_flags ext (it + 1) k (snd (iteration_effect ext it w))"

definition solve_entry_effect :: "'p ext \<Rightarrow> 'p Work \<Rightarrow> 'p Work" where
  "solve_entry_effect ext w = (if warm_start (settings w) = 0 then cold_start ext w else w)"

definition solve_exit_effect :: "'p ext \<Rightarrow> 'p Work \<Rightarrow> 'p Work" where
  "solve_exit_effect ext w1 =
     (let w2 = w1\<lparr>info := update_status_string ext (info w1)\<rparr>
      in store_solution ext
           (if polishing (settings w1) \<noteq> 0 \<and> status_val (info w1) = OSQP_SOLVED
            then polish ext w2 else w2))"

section \<open>Vectors that an update leaves in the workspace\<close>

text \<open>
  \<open>stored_bound settings_sym work v\<close> lists the \<open>m\<close> entries that a bound update writes
  when it is given \<open>v\<close>: the entries of \<open>v\<close>, each multiplied (as \<^verbatim>\<open>c_float\<close> values) by the
  entry of \<open>E\<close> when the update takes its scaling branch.
\<close>

definition stored_bound :: "Settings \<Rightarrow> 'p Work \<Rightarrow> real list \<Rightarrow> real list" where
  "stored_bound settings_sym work v =
     map (\<lambda>i. if Settings.scaling settings_sym \<noteq> 0
               then (case Work.scaling work of None \<Rightarrow> v ! i
                     | Some sc \<Rightarrow> c_float_mul (v ! i) (E sc ! i))
               else v ! i)
       [0..<nat (m (data work))]"

section \<open>Collaborators that leave the iteration bound alone\<close>

text \<open>
  Every collaborator called by \<^verbatim>\<open>osqp_solve\<close> receives the workspace pointer and could
  overwrite \<^verbatim>\<open>work->settings->max_iter\<close>. The specification declares the settings immutable
  after setup; \<open>ext_keeps_max_iter\<close> states this for the field the loop reads.
\<close>

definition keeps_max_iter :: "('p Work \<Rightarrow> 'p Work) \<Rightarrow> bool" where
  "keeps_max_iter f \<longleftrightarrow> (\<forall>w. max_iter (settings (f w)) = max_iter (settings w))"

definition ext_keeps_max_iter :: "'p ext \<Rightarrow> bool" where
  "ext_keeps_max_iter ext \<longleftrightarrow>
     keeps_max_iter (cold_start ext) \<and> keeps_max_iter (compute_rhs ext)
     \<and> keeps_max_iter (update_x ext) \<and> keeps_max_iter (project_x ext)
     \<and> keeps_max_iter (update_u ext)
     \<and> (\<forall>it. keeps_max_iter (\<lambda>w. update_info ext w it 0))
     \<and> keeps_max_iter (\<lambda>w. snd (residuals_check ext w))"

section \<open>A small instance\<close>

text \<open>
  The box-constrained problem in one variable of the specification (scenario S2):
  \<open>P = [[2]]\<close>, \<open>q = [0]\<close>, \<open>A = [[1]]\<close>, \<open>lA = [1]\<close>, \<open>uA = [3]\<close>, with scalings
  \<open>D = E = [2]\<close>. \<open>ex_work\<close> is the workspace holding the scaled problem; \<open>ex_ext\<close> is a
  set of collaborators, each of which changes the workspace in a way of its own, and
  whose residual check passes once two iterations have been recorded.
\<close>

definition ex_settings :: Settings where
  "ex_settings = \<lparr>rho = 1, sigma = 1, alpha = 1, max_iter = 3, eps_abs = 0, eps_rel = 0,
     Settings.scaling = 1, scaling_norm = 2, scaling_iter = 1, polishing = 1,
     pol_refine_iter = 0, delta = 0, verbose = 0, warm_start = 0\<rparr>"

definition ex_scaling :: Scaling where
  "ex_scaling = \<lparr>D = [2], Dinv = [1 / 2], E = [2], Einv = [1 / 2]\<rparr>"

definition ex_csc :: "real \<Rightarrow> csc" where
  "ex_csc v = \<lparr>nzmax = 1, nrows = 1, ncols = 1, col_ptr = [0, 1], row_ind = [0], val = [v]\<rparr>"

definition ex_data :: Data where
  "ex_data = \<lparr>n = 1, m = 1, P = ex_csc 2, q = [0], A = ex_csc 1, lA = [1], uA = [3]\<rparr>"

definition ex_info :: Info where
  "ex_info = \<lparr>iter = 0, status = [], status_val = OSQP_UNSOLVED, obj_val = 0, pri_res = 0, dua_res = 0\<rparr>"

definition ex_work :: "unit Work" where
  "ex_work = \<lparr>data = ex_data\<lparr>P := ex_csc 8, A := ex_csc 4, lA := [2], uA := [6]\<rparr>,
     x = [0, 0], z = [0, 0], u = [0], z_prev = [0, 0], dua_res_ws_n = [0], dua_res_ws_m = [0],
     settings = ex_settings, Work.scaling = Some ex_scaling, priv = (),
     pol = \<lparr>ind_lAct = [0], ind_uAct = [0], A2Ared = [0], Polish.x = [0], Ax = [0]\<rparr>,
     solution = \<lparr>Solution.x = [0], lambda = [0]\<rparr>, info = ex_info\<rparr>"

definition ex_status_text :: "osqp_status \<Rightarrow> string" where
  "ex_status_text st =
     (case st of OSQP_SOLVED \<Rightarrow> ''Solved''
      | OSQP_MAX_ITER_REACHED \<Rightarrow> ''Maximum Iterations Reached''
      | OSQP_UNSOLVED \<Rightarrow> ''Unsolved'')"

definition ex_residuals_check :: "unit Work \<Rightarrow> int \<times> unit Work" where
  "ex_residuals_check w =
     (if 2 \<le> iter (info w) then (1, w\<lparr>info := (info w)\<lparr>status_val := OSQP_SOLVED\<rparr>\<rparr>)
      else (0, w))"

definition ex_ext :: "unit ext" where
  "ex_ext = \<lparr>
     validate_data = (\<lambda>d. if n d \<le> 0 \<or> m d < 0 then 1 else 0),
     validate_settings = (\<lambda>s. if max_iter s \<le> 0 \<or> rho s \<le> 0 \<or> sigma s \<le> 0 then 1 else 0),
     calloc_Work_ok = True,
     uninit_float = (\<lambda>j. 7),
     uninit_int = (\<lambda>j. 7),
     csc_to_triu = (\<lambda>M. M),
     copy_csc_mat = (\<lambda>M. M),
     scale_data = (\<lambda>d s. (d\<lparr>lA := map (\<lambda>v. v * 2) (lA d), uA := map (\<lambda>v. v * 2) (uA d)\<rparr>, ex_scaling)),
     init_priv = (\<lambda>M N s f. ()),
     status_text = ex_status_text,
     cold_start = (\<lambda>w. w\<lparr>x := map (\<lambda>v. 0) (x w), z := map (\<lambda>v. 0) (z w), u := map (\<lambda>v. 0) (u w)\<rparr>),
     compute_rhs = (\<lambda>w. w\<lparr>x := map (\<lambda>v. v + 1) (x w)\<rparr>),
     solve_lin_sys = (\<lambda>s p v. map (\<lambda>t. 2 * t) v),
     update_x = (\<lambda>w. w\<lparr>x := map (\<lambda>v. v + 3) (x w)\<rparr>),
     project_x = (\<lambda>w. w\<lparr>z := x w\<rparr>),
     update_u = (\<lambda>w. w\<lparr>u := map (\<lambda>v. v + sum_list (z w)) (u w)\<rparr>),
     update_info = (\<lambda>w it pf. w\<lparr>info := (info w)\<lparr>iter := it + 1\<rparr>\<rparr>),
     residuals_check = ex_residuals_check,
     polish = (\<lambda>w. w\<lparr>pol := (pol w)\<lparr>Polish.x := take (nat (n (data w))) (x w)\<rparr>\<rparr>),
     store_solution = (\<lambda>w. w\<lparr>solution :=
        \<lparr>Solution.x = take (nat (n (data w))) (x w), lambda = u w\<rparr>\<rparr>)\<rparr>"

text \<open>
  A second workspace, with \<open>E = [5]\<close>: its stored upper bound \<open>17 / 2\<close> is the scaled form
  of the unscaled upper bound \<open>ex_upper_unscaled\<close>, the \<^verbatim>\<open>double\<close> nearest to 1.7;
  \<open>ex_lower_new\<close> is the next \<^verbatim>\<open>double\<close> above it.
\<close>

definition ex_upper_unscaled :: real where
  "ex_upper_unscaled = 7656119366529843 / 2 ^ 52"

definition ex_lower_new :: real where
  "ex_lower_new = 7656119366529844 / 2 ^ 52"

definition ex_scaling_round :: Scaling where
  "ex_scaling_round = \<lparr>D = [2], Dinv = [1 / 2], E = [5], Einv = [3602879701896397 / 2 ^ 54]\<rparr>"

definition ex_work_round :: "unit Work" where
  "ex_work_round = ex_work\<lparr>data := (data ex_work)\<lparr>A := ex_csc 10, lA := [0], uA := [17 / 2]\<rparr>,
     Work.scaling := Some ex_scaling_round\<rparr>"

lemmas ex_defs = ex_settings_def ex_scaling_def ex_csc_def ex_data_def ex_info_def ex_work_def
  ex_status_text_def ex_residuals_check_def ex_ext_def ex_scaling_round_def ex_work_round_def

section \<open>Rounding is monotone\<close>

lemma round_even_of_int [simp]: "round_even (of_int k) = k"
  by (simp add: round_even_def)

lemma round_even_lower: "\<lfloor>r\<rfloor> \<le> round_even r"
  by (simp add: round_even_def Let_def)

lemma round_even_upper: "round_even r \<le> \<lfloor>r\<rfloor> + 1"
  by (simp add: round_even_def Let_def)

lemma round_even_ge: "of_int k \<le> r \<Longrightarrow> k \<le> round_even r"
  using round_even_lower [of r] by (meson le_floor_iff order_trans)

lemma round_even_le: "r \<le> of_int k \<Longrightarrow> round_even r \<le> k"
proof (cases "r = of_int k")
  case True
  then show ?thesis by simp
next
  case False
  assume "r \<le> of_int k"
  with False have "r < of_int k" by simp
  then have "\<lfloor>r\<rfloor> < k" by (simp add: floor_less_iff)
  with round_even_upper [of r] show ?thesis by simp
qed

lemma round_even_mono:
  assumes "r \<le> s"
  shows "round_even r \<le> round_even s"
proof (cases "\<lfloor>r\<rfloor> = \<lfloor>s\<rfloor>")
  case True
  with assms show ?thesis by (auto simp: round_even_def Let_def)
next
  case False
  with assms have "\<lfloor>r\<rfloor> < \<lfloor>s\<rfloor>" using floor_mono [OF assms] by simp
  with round_even_upper [of r] round_even_lower [of s] show ?thesis by simp
qed

lemma powi_two_pos [simp]: "0 < (2::real) powi k"
  by simp

lemma powi_two_mono: "j \<le> k \<Longrightarrow> (2::real) powi j \<le> 2 powi k"
  by (rule power_int_increasing) simp_all

lemma powi_two_split: "(2::real) powi (k + 1) = of_int (2 ^ 53) * 2 powi (k - 52)"
proof -
  have "k + 1 = 53 + (k - 52)" by simp
  then have "(2::real) powi (k + 1) = 2 powi (53 + (k - 52))" by (simp only:)
  also have "\<dots> = 2 powi 53 * 2 powi (k - 52)" by (rule power_int_add) simp
  finally show ?thesis by simp
qed

lemma powi_two_split': "(2::real) powi k = of_int (2 ^ 52) * 2 powi (k - 52)"
proof -
  have "k = 52 + (k - 52)" by simp
  then have "(2::real) powi k = 2 powi (52 + (k - 52))" by (simp only:)
  also have "\<dots> = 2 powi 52 * 2 powi (k - 52)" by (rule power_int_add) simp
  finally show ?thesis by simp
qed

lemma powr_two_of_int: "(2::real) powr (of_int k) = 2 powi k"
  by (rule powr_real_of_int') simp_all

lemma powr_two_of_int_Suc: "(2::real) powr (of_int k + 1) = 2 powi (k + 1)"
  using powr_two_of_int [of "k + 1"] by simp

lemma floor_log2_bounds:
  assumes "0 < v"
  shows "2 powi \<lfloor>log 2 v\<rfloor> \<le> v" and "v < 2 powi (\<lfloor>log 2 v\<rfloor> + 1)"
proof -
  have "2 powr of_int \<lfloor>log 2 v\<rfloor> \<le> v \<and> v < 2 powr (of_int \<lfloor>log 2 v\<rfloor> + 1)"
    using floor_log_eq_powr_iff [of v 2 "\<lfloor>log 2 v\<rfloor>"] assms by simp
  then show "2 powi \<lfloor>log 2 v\<rfloor> \<le> v" and "v < 2 powi (\<lfloor>log 2 v\<rfloor> + 1)"
    by (simp_all only: powr_two_of_int powr_two_of_int_Suc)
qed

lemma floor_log2_unique:
  assumes "2 powi k \<le> v" and "v < 2 powi (k + 1)"
  shows "\<lfloor>log 2 v\<rfloor> = k"
proof -
  have pos: "0 < v" using assms(1) powi_two_pos [of k] by linarith
  have "2 powr of_int k \<le> v \<and> v < 2 powr (of_int k + 1)"
    using assms by (simp only: powr_two_of_int powr_two_of_int_Suc)
  then show ?thesis
    using floor_log_eq_powr_iff [of v 2 k] pos by simp
qed

lemma binary64_exp_upper:
  assumes "0 < v"
  shows "v < 2 powi (binary64_exp \<bar>v\<bar> + 1)"
proof -
  have "v < 2 powi (\<lfloor>log 2 v\<rfloor> + 1)" by (rule floor_log2_bounds [OF assms])
  also have "\<dots> \<le> 2 powi (binary64_exp \<bar>v\<bar> + 1)"
    using assms by (intro powi_two_mono) (simp add: binary64_exp_def)
  finally show ?thesis .
qed

lemma binary64_exp_lower:
  assumes "0 < v" and "- 1022 < binary64_exp \<bar>v\<bar>"
  shows "2 powi (binary64_exp \<bar>v\<bar>) \<le> v"
proof -
  from assms have "binary64_exp \<bar>v\<bar> = \<lfloor>log 2 v\<rfloor>"
    by (simp add: binary64_exp_def max_def split: if_splits)
  then show ?thesis using floor_log2_bounds(1) [OF assms(1)] by simp
qed

lemma binary64_exp_mono:
  assumes "0 < v" and "v \<le> w"
  shows "binary64_exp \<bar>v\<bar> \<le> binary64_exp \<bar>w\<bar>"
proof -
  have "log 2 v \<le> log 2 w" using assms by simp
  then have "\<lfloor>log 2 v\<rfloor> \<le> \<lfloor>log 2 w\<rfloor>" by (rule floor_mono)
  then show ?thesis using assms by (simp add: binary64_exp_def)
qed

lemma binary64_exp_abs [simp]: "binary64_exp \<bar>v\<bar> = binary64_exp v"
  by (simp add: binary64_exp_def)

lemma binary64_mag_raw: "binary64_mag v = min (binary64_raw v) (2 powi 1024)"
  by (simp add: binary64_mag_def c_float_inf_def)

lemma binary64_raw_upper:
  assumes "0 < v"
  shows "binary64_raw v \<le> 2 powi (binary64_exp v + 1)"
proof -
  let ?u = "(2::real) powi (binary64_exp v - 52)"
  have "v < 2 powi (binary64_exp v + 1)" using binary64_exp_upper [OF assms] by simp
  then have "v \<le> of_int (2 ^ 53) * ?u" by (simp add: powi_two_split)
  then have "v / ?u \<le> of_int (2 ^ 53)" by (simp add: pos_divide_le_eq)
  then have "round_even (v / ?u) \<le> 2 ^ 53" by (rule round_even_le)
  then have "(of_int (round_even (v / ?u)) :: real) \<le> of_int (2 ^ 53)" by (simp only: of_int_le_iff)
  then have "of_int (round_even (v / ?u)) * ?u \<le> of_int (2 ^ 53) * ?u"
    by (rule mult_right_mono) simp
  then show ?thesis by (simp add: binary64_raw_def powi_two_split [of "binary64_exp v"])
qed

lemma binary64_raw_lower:
  assumes "0 < v" and "- 1022 < binary64_exp v"
  shows "2 powi (binary64_exp v) \<le> binary64_raw v"
proof -
  let ?u = "(2::real) powi (binary64_exp v - 52)"
  have "2 powi (binary64_exp v) \<le> v" using binary64_exp_lower [OF assms(1)] assms(2) by simp
  then have "of_int (2 ^ 52) * ?u \<le> v" using powi_two_split' [of "binary64_exp v"] by simp
  then have "of_int (2 ^ 52) \<le> v / ?u" by (simp add: pos_le_divide_eq)
  then have "2 ^ 52 \<le> round_even (v / ?u)" by (rule round_even_ge)
  then have "(of_int (2 ^ 52) :: real) \<le> of_int (round_even (v / ?u))" by (simp only: of_int_le_iff)
  then have "of_int (2 ^ 52) * ?u \<le> of_int (round_even (v / ?u)) * ?u"
    by (rule mult_right_mono) simp
  then show ?thesis using powi_two_split' [of "binary64_exp v"] by (simp add: binary64_raw_def)
qed

lemma binary64_raw_nonneg:
  assumes "0 < v"
  shows "0 \<le> binary64_raw v"
proof -
  have "(of_int 0 :: real) \<le> v / 2 powi (binary64_exp v - 52)" using assms by simp
  then have "0 \<le> round_even (v / 2 powi (binary64_exp v - 52))" by (rule round_even_ge)
  then show ?thesis by (simp add: binary64_raw_def)
qed

lemma binary64_raw_mono:
  assumes "0 < v" and "v \<le> w"
  shows "binary64_raw v \<le> binary64_raw w"
proof (cases "binary64_exp v = binary64_exp w")
  case True
  let ?u = "(2::real) powi (binary64_exp w - 52)"
  have "v / ?u \<le> w / ?u" using assms by (simp add: divide_right_mono)
  then have "round_even (v / ?u) \<le> round_even (w / ?u)" by (rule round_even_mono)
  then have "(of_int (round_even (v / ?u)) :: real) \<le> of_int (round_even (w / ?u))"
    by (simp only: of_int_le_iff)
  then have "of_int (round_even (v / ?u)) * ?u \<le> of_int (round_even (w / ?u)) * ?u"
    by (rule mult_right_mono) simp
  then show ?thesis using True by (simp add: binary64_raw_def)
next
  case False
  have w: "0 < w" using assms by simp
  have "binary64_exp v \<le> binary64_exp w" using binary64_exp_mono [OF assms] by simp
  with False have lt: "binary64_exp v + 1 \<le> binary64_exp w" by simp
  have "- 1022 \<le> binary64_exp v" by (simp add: binary64_exp_def)
  with lt have big: "- 1022 < binary64_exp w" by simp
  have "binary64_raw v \<le> 2 powi (binary64_exp v + 1)" by (rule binary64_raw_upper [OF assms(1)])
  also have "\<dots> \<le> 2 powi (binary64_exp w)" by (rule powi_two_mono [OF lt])
  also have "\<dots> \<le> binary64_raw w" by (rule binary64_raw_lower [OF w big])
  finally show ?thesis .
qed

lemma binary64_mag_mono: "0 < v \<Longrightarrow> v \<le> w \<Longrightarrow> binary64_mag v \<le> binary64_mag w"
  using binary64_raw_mono [of v w] by (simp add: binary64_mag_raw min_le_iff_disj)

lemma binary64_mag_nonneg: "0 < v \<Longrightarrow> 0 \<le> binary64_mag v"
  using binary64_raw_nonneg [of v] by (simp add: binary64_mag_raw)

lemma binary64_mag_le_inf: "binary64_mag v \<le> c_float_inf"
  by (simp add: binary64_mag_raw c_float_inf_def)

lemma binary64_mono:
  assumes "v \<le> w"
  shows "binary64 v \<le> binary64 w"
proof -
  consider "0 < v" | "v = 0" | "v < 0" "0 \<le> w" | "w < 0" using assms by linarith
  then show ?thesis
  proof cases
    case 1
    then show ?thesis using assms binary64_mag_mono [of v w] by (simp add: binary64_def)
  next
    case 2
    then show ?thesis using assms binary64_mag_nonneg [of w] by (simp add: binary64_def)
  next
    case 3
    have "binary64 v \<le> 0" using 3 binary64_mag_nonneg [of "- v"] by (simp add: binary64_def)
    moreover have "0 \<le> binary64 w"
      using 3 binary64_mag_nonneg [of w] by (cases "w = 0") (simp_all add: binary64_def)
    ultimately show ?thesis by simp
  next
    case 4
    then have "binary64_mag (- w) \<le> binary64_mag (- v)"
      using assms by (intro binary64_mag_mono) simp_all
    with 4 assms show ?thesis by (simp add: binary64_def)
  qed
qed

lemma binary64_abs_le_inf: "\<bar>binary64 v\<bar> \<le> c_float_inf"
proof (cases "v = 0")
  case True
  then show ?thesis by (simp add: binary64_def c_float_inf_def)
next
  case False
  then have "0 \<le> binary64_mag \<bar>v\<bar>" by (intro binary64_mag_nonneg) simp
  then have "\<bar>binary64 v\<bar> = binary64_mag \<bar>v\<bar>"
    using False by (simp add: binary64_def abs_mult)
  then show ?thesis using binary64_mag_le_inf [of "\<bar>v\<bar>"] by simp
qed

lemma c_float_mul_mono:
  assumes "a \<le> b" and "0 < e"
  shows "c_float_mul a e \<le> c_float_mul b e"
proof (cases "c_float_inf \<le> \<bar>e\<bar>")
  case True
  have "sgn a \<le> sgn b" using assms(1) by (simp add: sgn_if)
  then have "sgn a * c_float_inf \<le> sgn b * c_float_inf"
    by (rule mult_right_mono) (simp add: c_float_inf_def)
  with True assms(2) show ?thesis by (simp add: c_float_mul_def)
next
  case False
  note fin = this
  have inf_pos: "0 < c_float_inf" by (simp add: c_float_inf_def)
  consider (ia) "c_float_inf \<le> \<bar>a\<bar>" "a < 0" | (ib) "c_float_inf \<le> \<bar>b\<bar>" "0 < b"
    | (ic) "c_float_inf \<le> \<bar>a\<bar>" "0 < a" | (id) "c_float_inf \<le> \<bar>b\<bar>" "b < 0"
    | (fin) "\<not> c_float_inf \<le> \<bar>a\<bar>" "\<not> c_float_inf \<le> \<bar>b\<bar>"
    using inf_pos by (cases "c_float_inf \<le> \<bar>a\<bar>"; cases "c_float_inf \<le> \<bar>b\<bar>") (auto simp: abs_if split: if_splits)
  then show ?thesis
  proof cases
    case ia
    then have l: "c_float_mul a e = - c_float_inf" using assms(2) by (simp add: c_float_mul_def)
    have "- c_float_inf \<le> c_float_mul b e"
    proof (cases "c_float_inf \<le> \<bar>b\<bar>")
      case True
      then show ?thesis using assms(2) fin inf_pos by (simp add: c_float_mul_def sgn_if)
    next
      case False
      then show ?thesis using fin binary64_abs_le_inf [of "b * e"] by (simp add: c_float_mul_def)
    qed
    with l show ?thesis by simp
  next
    case ib
    then have r: "c_float_mul b e = c_float_inf" using assms(2) by (simp add: c_float_mul_def)
    have "c_float_mul a e \<le> c_float_inf"
    proof (cases "c_float_inf \<le> \<bar>a\<bar>")
      case True
      then show ?thesis using assms(2) fin inf_pos by (simp add: c_float_mul_def sgn_if)
    next
      case False
      then show ?thesis using fin binary64_abs_le_inf [of "a * e"] by (simp add: c_float_mul_def)
    qed
    with r show ?thesis by simp
  next
    case ic
    then have "c_float_inf \<le> \<bar>b\<bar>" "0 < b" using assms(1) by simp_all
    with ic assms(2) show ?thesis by (simp add: c_float_mul_def)
  next
    case id
    then have "c_float_inf \<le> \<bar>a\<bar>" "a < 0" using assms(1) by simp_all
    with id assms(2) show ?thesis by (simp add: c_float_mul_def)
  next
    case fin
    have "a * e \<le> b * e" using assms by (simp add: mult_right_mono)
    then show ?thesis using fin False binary64_mono by (simp add: c_float_mul_def)
  qed
qed

lemma binary64_eval:
  assumes "2 powi k \<le> v" and "v < 2 powi (k + 1)" and "- 1022 \<le> k" and "k \<le> 1023"
  shows "binary64 v = of_int (round_even (v / 2 powi (k - 52))) * 2 powi (k - 52)"
proof -
  have pos: "0 < v" using assms(1) powi_two_pos [of k] by linarith
  have "\<lfloor>log 2 v\<rfloor> = k" by (rule floor_log2_unique [OF assms(1,2)])
  then have e: "binary64_exp v = k" using assms(3) pos by (simp add: binary64_exp_def)
  have "binary64_raw v \<le> 2 powi (binary64_exp v + 1)" by (rule binary64_raw_upper [OF pos])
  also have "\<dots> \<le> 2 powi 1024" using assms(4) e by (intro powi_two_mono) simp
  finally have "binary64_mag v = binary64_raw v" by (simp add: binary64_mag_raw)
  then show ?thesis using pos e by (simp add: binary64_def binary64_raw_def)
qed

lemma binary64_minus: "binary64 (- v) = - binary64 v"
  by (simp add: binary64_def)

lemma round_even_numeral [simp]: "round_even (numeral j) = numeral j"
  using round_even_of_int [of "numeral j"] by simp

lemma round_even_one [simp]: "round_even 1 = 1"
  using round_even_of_int [of 1] by simp

lemma c_float_mul_eval:
  assumes "\<bar>a\<bar> < c_float_inf" and "\<bar>b\<bar> < c_float_inf"
    and "2 powi k \<le> a * b" and "a * b < 2 powi (k + 1)" and "- 1022 \<le> k" and "k \<le> 1023"
  shows "c_float_mul a b = of_int (round_even (a * b / 2 powi (k - 52))) * 2 powi (k - 52)"
  using assms(1,2) binary64_eval [OF assms(3-6)] by (simp add: c_float_mul_def)

lemma c_float_mul_greater:
  assumes "c_float_mul b e < c_float_mul a e" and "0 < e"
  shows "b < a"
proof (rule ccontr)
  assume "\<not> b < a"
  then have "a \<le> b" by simp
  from c_float_mul_mono [OF this assms(2)] assms(1) show False by simp
qed

lemma ex_products:
  "c_float_mul 5 2 = 10" "c_float_mul 4 2 = 8" "c_float_mul 3 2 = 6" "c_float_mul 2 2 = 4"
  "c_float_mul 1 2 = 2" "c_float_mul (1 / 2) 2 = 1"
  using c_float_mul_eval [of 5 2 3] c_float_mul_eval [of 4 2 3] c_float_mul_eval [of 3 2 2]
    c_float_mul_eval [of 2 2 2] c_float_mul_eval [of 1 2 1] c_float_mul_eval [of "1 / 2" 2 0]
  by (simp_all add: c_float_inf_def)

lemma ex_products_round:
  "c_float_mul ex_upper_unscaled 5 = 17 / 2" "c_float_mul ex_lower_new 5 = 17 / 2"
  using c_float_mul_eval [of "7656119366529843 / 2 ^ 52" 5 3]
    c_float_mul_eval [of "7656119366529844 / 2 ^ 52" 5 3]
  by (simp_all add: c_float_inf_def round_even_def ex_upper_unscaled_def ex_lower_new_def)

lemma ex_representable:
  "binary64 ex_upper_unscaled = ex_upper_unscaled" "binary64 ex_lower_new = ex_lower_new"
  "binary64 5 = 5" "binary64 (17 / 2) = 17 / 2"
  using binary64_eval [of 0 "7656119366529843 / 2 ^ 52"]
    binary64_eval [of 0 "7656119366529844 / 2 ^ 52"]
    binary64_eval [of 2 5] binary64_eval [of 3 "17 / 2"]
  by (simp_all add: round_even_def ex_upper_unscaled_def ex_lower_new_def)

section \<open>The loops of the bound updates\<close>

lemma ex_index_step:
  fixes i k :: int
  assumes "\<not> Q i"
  shows "(\<exists>j. i \<le> j \<and> j < k \<and> Q j) \<longleftrightarrow> (\<exists>j. i + 1 \<le> j \<and> j < k \<and> Q j)"
proof
  assume "\<exists>j. i \<le> j \<and> j < k \<and> Q j"
  then obtain j where j: "i \<le> j" "j < k" "Q j" by blast
  with assms have "j \<noteq> i" by auto
  with j have "i + 1 \<le> j \<and> j < k \<and> Q j" by simp
  then show "\<exists>j. i + 1 \<le> j \<and> j < k \<and> Q j" ..
next
  assume "\<exists>j. i + 1 \<le> j \<and> j < k \<and> Q j"
  then obtain j where j: "i + 1 \<le> j" "j < k" "Q j" by blast
  then have "i \<le> j \<and> j < k \<and> Q j" by simp
  then show "\<exists>j. i \<le> j \<and> j < k \<and> Q j" ..
qed

lemma ex_index_nat:
  fixes k :: int
  shows "(\<exists>j. 0 \<le> j \<and> j < k \<and> Q (nat j)) \<longleftrightarrow> (\<exists>i<nat k. Q i)"
proof
  assume "\<exists>j. 0 \<le> j \<and> j < k \<and> Q (nat j)"
  then obtain j where "0 \<le> j" "j < k" "Q (nat j)" by blast
  then have "nat j < nat k \<and> Q (nat j)" by simp
  then show "\<exists>i<nat k. Q i" by blast
next
  assume "\<exists>i<nat k. Q i"
  then obtain i where "i < nat k" "Q i" by blast
  then have "0 \<le> int i \<and> int i < k \<and> Q (nat (int i))" by simp
  then show "\<exists>j. 0 \<le> j \<and> j < k \<and> Q (nat j)" ..
qed

lemma lower_loop_char:
  "osqp_update_lower_bound_loop i w =
     (if \<exists>j. i \<le> j \<and> j < m (data w) \<and> lA (data w) ! nat j > uA (data w) ! nat j then 1 else 0)"
proof (induction i w rule: osqp_update_lower_bound_loop.induct)
  case (1 i work)
  show ?case
  proof (cases "i < m (data work)")
    case False
    then show ?thesis
      by (subst osqp_update_lower_bound_loop.simps) auto
  next
    case True
    note lt = this
    show ?thesis
    proof (cases "lA (data work) ! nat i > uA (data work) ! nat i")
      case True
      with lt show ?thesis
        by (subst osqp_update_lower_bound_loop.simps) auto
    next
      case False
      have step: "osqp_update_lower_bound_loop i work = osqp_update_lower_bound_loop (i + 1) work"
        using lt False by (subst osqp_update_lower_bound_loop.simps) simp
      from False have "\<not> (\<lambda>j. lA (data work) ! nat j > uA (data work) ! nat j) i" by simp
      from ex_index_step [of "\<lambda>j. lA (data work) ! nat j > uA (data work) ! nat j", OF this]
      show ?thesis using step "1.IH" [OF lt False] by simp
    qed
  qed
qed

lemma lower_loop_flag:
  "osqp_update_lower_bound_loop 0 w =
     (if \<exists>i<nat (m (data w)). lA (data w) ! i > uA (data w) ! i then 1 else 0)"
  using ex_index_nat [of "m (data w)" "\<lambda>i. lA (data w) ! i > uA (data w) ! i"]
  unfolding lower_loop_char by simp

lemma upper_loop_char:
  "osqp_update_upper_bound_loop i w =
     (if \<exists>j. i \<le> j \<and> j < m (data w) \<and> uA (data w) ! nat j < lA (data w) ! nat j then 1 else 0)"
proof (induction i w rule: osqp_update_upper_bound_loop.induct)
  case (1 i work)
  show ?case
  proof (cases "i < m (data work)")
    case False
    then show ?thesis
      by (subst osqp_update_upper_bound_loop.simps) auto
  next
    case True
    note lt = this
    show ?thesis
    proof (cases "uA (data work) ! nat i < lA (data work) ! nat i")
      case True
      with lt show ?thesis
        by (subst osqp_update_upper_bound_loop.simps) auto
    next
      case False
      have step: "osqp_update_upper_bound_loop i work = osqp_update_upper_bound_loop (i + 1) work"
        using lt False by (subst osqp_update_upper_bound_loop.simps) simp
      from False have "\<not> (\<lambda>j. uA (data work) ! nat j < lA (data work) ! nat j) i" by simp
      from ex_index_step [of "\<lambda>j. uA (data work) ! nat j < lA (data work) ! nat j", OF this]
      show ?thesis using step "1.IH" [OF lt False] by simp
    qed
  qed
qed

lemma upper_loop_flag:
  "osqp_update_upper_bound_loop 0 w =
     (if \<exists>i<nat (m (data w)). uA (data w) ! i < lA (data w) ! i then 1 else 0)"
  using ex_index_nat [of "m (data w)" "\<lambda>i. uA (data w) ! i < lA (data w) ! i"]
  unfolding upper_loop_char by simp





section \<open>What the bound updates store\<close>

lemma nth_prea_vec_copy:
  "i < length b \<Longrightarrow> prea_vec_copy a b len ! i = (if i < nat len then a ! i else b ! i)"
  by (simp add: prea_vec_copy_def)

lemma nth_vec_ew_prod:
  "i < length b \<Longrightarrow>
     vec_ew_prod a b len ! i = (if i < nat len then c_float_mul (b ! i) (a ! i) else b ! i)"
  by (simp add: vec_ew_prod_def)

lemma length_prea_vec_copy [simp]: "length (prea_vec_copy a b len) = length b"
  by (simp add: prea_vec_copy_def)

lemma length_vec_ew_prod [simp]: "length (vec_ew_prod a b len) = length b"
  by (simp add: vec_ew_prod_def)

lemma prea_vec_copy_full:
  "length b = nat len \<Longrightarrow> prea_vec_copy a b len = map (\<lambda>i. a ! i) [0..<nat len]"
  by (simp add: prea_vec_copy_def)

lemma vec_ew_prod_full:
  "vec_ew_prod e (map f [0..<nat len]) len = map (\<lambda>i. c_float_mul (f i) (e ! i)) [0..<nat len]"
  by (simp add: vec_ew_prod_def)

lemma lower_result:
  assumes len: "length (lA (data w)) = nat (m (data w))"
    and ret: "osqp_update_lower_bound gs w v = Inr (flag, w')"
  shows "w' = w\<lparr>data := (data w)\<lparr>lA := stored_bound gs w v\<rparr>\<rparr>
         \<and> flag = osqp_update_lower_bound_loop 0 w'"
  using ret len
  by (auto simp: osqp_update_lower_bound_def Let_def stored_bound_def prea_vec_copy_full
      vec_ew_prod_full split: if_splits option.splits)

lemma upper_result:
  assumes len: "length (uA (data w)) = nat (m (data w))"
    and ret: "osqp_update_upper_bound gs w v = Inr (flag, w')"
  shows "w' = w\<lparr>data := (data w)\<lparr>uA := stored_bound gs w v\<rparr>\<rparr>
         \<and> flag = osqp_update_upper_bound_loop 0 w'"
  using ret len
  by (auto simp: osqp_update_upper_bound_def Let_def stored_bound_def prea_vec_copy_full
      vec_ew_prod_full split: if_splits option.splits)

text \<open>
  C4: when \<^verbatim>\<open>osqp_update_lower_bound\<close> or \<^verbatim>\<open>osqp_update_upper_bound\<close> returns a nonzero
  flag, the workspace it leaves is the old one with the whole bound vector replaced by
  the new entries (scaled by \<open>E\<close> when the scaling branch is taken): nothing is rolled
  back, and a component that violates \<open>lA \<le> uA\<close> is stored in the workspace. The
  workspace is taken to hold \<open>m\<close> entries in each bound vector.
\<close>

theorem failed_update_keeps_new_bound:
  assumes "length (lA (data w)) = nat (m (data w))"
    and "length (uA (data w)) = nat (m (data w))"
  shows "(osqp_update_lower_bound gs w v1 = Inr (flag1, w1) \<and> flag1 \<noteq> 0 \<longrightarrow>
            w1 = w\<lparr>data := (data w)\<lparr>lA := stored_bound gs w v1\<rparr>\<rparr>
            \<and> (\<exists>i<nat (m (data w)). lA (data w1) ! i > uA (data w1) ! i))
       \<and> (osqp_update_upper_bound gs w v2 = Inr (flag2, w2) \<and> flag2 \<noteq> 0 \<longrightarrow>
            w2 = w\<lparr>data := (data w)\<lparr>uA := stored_bound gs w v2\<rparr>\<rparr>
            \<and> (\<exists>i<nat (m (data w)). uA (data w2) ! i < lA (data w2) ! i))"
proof (intro conjI impI)
  assume a: "osqp_update_lower_bound gs w v1 = Inr (flag1, w1) \<and> flag1 \<noteq> 0"
  then have r: "w1 = w\<lparr>data := (data w)\<lparr>lA := stored_bound gs w v1\<rparr>\<rparr>"
    "flag1 = osqp_update_lower_bound_loop 0 w1"
    using lower_result [OF assms(1), of gs v1 flag1 w1] by simp_all
  show "w1 = w\<lparr>data := (data w)\<lparr>lA := stored_bound gs w v1\<rparr>\<rparr>" by (rule r(1))
  have "m (data w1) = m (data w)" by (simp add: r(1))
  moreover have "osqp_update_lower_bound_loop 0 w1 \<noteq> 0" using a r(2) by simp
  ultimately show "\<exists>i<nat (m (data w)). lA (data w1) ! i > uA (data w1) ! i"
    by (auto simp: lower_loop_flag split: if_splits)
next
  assume a: "osqp_update_upper_bound gs w v2 = Inr (flag2, w2) \<and> flag2 \<noteq> 0"
  then have r: "w2 = w\<lparr>data := (data w)\<lparr>uA := stored_bound gs w v2\<rparr>\<rparr>"
    "flag2 = osqp_update_upper_bound_loop 0 w2"
    using upper_result [OF assms(2), of gs v2 flag2 w2] by simp_all
  show "w2 = w\<lparr>data := (data w)\<lparr>uA := stored_bound gs w v2\<rparr>\<rparr>" by (rule r(1))
  have "m (data w2) = m (data w)" by (simp add: r(1))
  moreover have "osqp_update_upper_bound_loop 0 w2 \<noteq> 0" using a r(2) by simp
  ultimately show "\<exists>i<nat (m (data w)). uA (data w2) ! i < lA (data w2) ! i"
    by (auto simp: upper_loop_flag split: if_splits)
qed

theorem failed_update_keeps_new_bound_witness:
  "length (lA (data ex_work)) = nat (m (data ex_work))
   \<and> length (uA (data ex_work)) = nat (m (data ex_work))
   \<and> osqp_update_lower_bound ex_settings ex_work [5] =
       Inr (1, ex_work\<lparr>data := (data ex_work)\<lparr>lA := [10]\<rparr>\<rparr>)
   \<and> stored_bound ex_settings ex_work [5] = [10]
   \<and> osqp_update_upper_bound ex_settings ex_work [1 / 2] =
       Inr (1, ex_work\<lparr>data := (data ex_work)\<lparr>uA := [1]\<rparr>\<rparr>)
   \<and> stored_bound ex_settings ex_work [1 / 2] = [1]"
  using failed_update_keeps_new_bound [of ex_work ex_settings "[5]" 1
      "ex_work\<lparr>data := (data ex_work)\<lparr>lA := [10]\<rparr>\<rparr>" "[1 / 2]" 1
      "ex_work\<lparr>data := (data ex_work)\<lparr>uA := [1]\<rparr>\<rparr>"]
  by (simp add: ex_defs osqp_update_lower_bound_def osqp_update_upper_bound_def lower_loop_flag
      upper_loop_flag prea_vec_copy_def vec_ew_prod_def stored_bound_def ex_products)

section \<open>Scaling and the bound check\<close>

lemma lower_scaled_flag:
  assumes "Settings.scaling gs \<noteq> 0" and "Work.scaling w = Some sc"
    and pos: "\<forall>i<nat (m (data w)). 0 < E sc ! i"
    and len: "length (lA (data w)) = nat (m (data w))"
    and up: "\<forall>i<nat (m (data w)). uA (data w) ! i = c_float_mul (uU ! i) (E sc ! i)"
  shows "\<exists>flag w'. osqp_update_lower_bound gs w v = Inr (flag, w')
          \<and> (\<forall>i<nat (m (data w)). lA (data w') ! i = c_float_mul (v ! i) (E sc ! i)
                \<and> uA (data w') ! i = c_float_mul (uU ! i) (E sc ! i))
          \<and> (flag \<noteq> 0 \<longleftrightarrow> (\<exists>i<nat (m (data w)).
                c_float_mul (v ! i) (E sc ! i) > c_float_mul (uU ! i) (E sc ! i)))
          \<and> (flag \<noteq> 0 \<longrightarrow> (\<exists>i<nat (m (data w)). v ! i > uU ! i))"
proof -
  let ?w' = "w\<lparr>data := (data w)\<lparr>lA := map (\<lambda>i. c_float_mul (v ! i) (E sc ! i))
                                         [0..<nat (m (data w))]\<rparr>\<rparr>"
  let ?flag = "osqp_update_lower_bound_loop 0 ?w'"
  have ret: "osqp_update_lower_bound gs w v = Inr (?flag, ?w')"
    using assms(1,2) len
    by (simp add: osqp_update_lower_bound_def Let_def prea_vec_copy_full vec_ew_prod_full)
  have ent: "\<forall>i<nat (m (data w)). lA (data ?w') ! i = c_float_mul (v ! i) (E sc ! i)
                \<and> uA (data ?w') ! i = c_float_mul (uU ! i) (E sc ! i)"
    using up by simp
  have flag: "?flag \<noteq> 0 \<longleftrightarrow> (\<exists>i<nat (m (data w)).
                c_float_mul (v ! i) (E sc ! i) > c_float_mul (uU ! i) (E sc ! i))"
    using up by (auto simp: lower_loop_flag)
  have sound: "\<exists>i<nat (m (data w)). v ! i > uU ! i" if "?flag \<noteq> 0"
  proof -
    from that flag obtain i where i: "i < nat (m (data w))"
      "c_float_mul (v ! i) (E sc ! i) > c_float_mul (uU ! i) (E sc ! i)" by blast
    from pos i(1) have "0 < E sc ! i" by simp
    from c_float_mul_greater [OF i(2) this] i(1) show ?thesis by blast
  qed
  from ret ent flag sound show ?thesis by blast
qed

lemma upper_scaled_flag:
  assumes "Settings.scaling gs \<noteq> 0" and "Work.scaling w = Some sc"
    and pos: "\<forall>i<nat (m (data w)). 0 < E sc ! i"
    and len: "length (uA (data w)) = nat (m (data w))"
    and lo: "\<forall>i<nat (m (data w)). lA (data w) ! i = c_float_mul (lU ! i) (E sc ! i)"
  shows "\<exists>flag w'. osqp_update_upper_bound gs w v = Inr (flag, w')
          \<and> (\<forall>i<nat (m (data w)). uA (data w') ! i = c_float_mul (v ! i) (E sc ! i)
                \<and> lA (data w') ! i = c_float_mul (lU ! i) (E sc ! i))
          \<and> (flag \<noteq> 0 \<longleftrightarrow> (\<exists>i<nat (m (data w)).
                c_float_mul (v ! i) (E sc ! i) < c_float_mul (lU ! i) (E sc ! i)))
          \<and> (flag \<noteq> 0 \<longrightarrow> (\<exists>i<nat (m (data w)). v ! i < lU ! i))"
proof -
  let ?w' = "w\<lparr>data := (data w)\<lparr>uA := map (\<lambda>i. c_float_mul (v ! i) (E sc ! i))
                                         [0..<nat (m (data w))]\<rparr>\<rparr>"
  let ?flag = "osqp_update_upper_bound_loop 0 ?w'"
  have ret: "osqp_update_upper_bound gs w v = Inr (?flag, ?w')"
    using assms(1,2) len
    by (simp add: osqp_update_upper_bound_def Let_def prea_vec_copy_full vec_ew_prod_full)
  have ent: "\<forall>i<nat (m (data w)). uA (data ?w') ! i = c_float_mul (v ! i) (E sc ! i)
                \<and> lA (data ?w') ! i = c_float_mul (lU ! i) (E sc ! i)"
    using lo by simp
  have flag: "?flag \<noteq> 0 \<longleftrightarrow> (\<exists>i<nat (m (data w)).
                c_float_mul (v ! i) (E sc ! i) < c_float_mul (lU ! i) (E sc ! i))"
    using lo by (auto simp: upper_loop_flag)
  have sound: "\<exists>i<nat (m (data w)). v ! i < lU ! i" if "?flag \<noteq> 0"
  proof -
    from that flag obtain i where i: "i < nat (m (data w))"
      "c_float_mul (v ! i) (E sc ! i) < c_float_mul (lU ! i) (E sc ! i)" by blast
    from pos i(1) have "0 < E sc ! i" by simp
    from c_float_mul_greater [OF i(2) this] i(1) show ?thesis by blast
  qed
  from ret ent flag sound show ?thesis by blast
qed

lemma free_symbol_skips_bound_scaling:
  "Settings.scaling (settings ex_work) = 1 \<and> E ex_scaling = [2]
   \<and> uA (data ex_work) = [c_float_mul 3 2]
   \<and> osqp_update_lower_bound (ex_settings\<lparr>Settings.scaling := 0\<rparr>) ex_work [4] =
       Inr (0, ex_work\<lparr>data := (data ex_work)\<lparr>lA := [4]\<rparr>\<rparr>)"
  by (simp add: ex_defs osqp_update_lower_bound_def lower_loop_flag prea_vec_copy_def ex_products)

text \<open>
  C9, as stated, fails on rounded products. The workspace \<open>ex_work_round\<close> has scaling
  on, \<open>E = [5]\<close>, and its stored upper bound \<open>17 / 2\<close> is the scaled form of the unscaled
  upper bound \<open>ex_upper_unscaled\<close>. The new lower bound \<open>ex_lower_new\<close>, the next
  \<^verbatim>\<open>double\<close>, is greater than that unscaled upper bound, yet its product with 5 rounds
  to \<open>17 / 2\<close> as well (a tie, resolved to the even significand), the test
  \<open>17 / 2 > 17 / 2\<close> fails and the update returns 0.
\<close>

theorem scaled_check_rounding_counterexample:
  "Settings.scaling ex_settings \<noteq> 0
   \<and> Work.scaling ex_work_round = Some ex_scaling_round \<and> E ex_scaling_round = [5]
   \<and> m (data ex_work_round) = 1
   \<and> uA (data ex_work_round) = [c_float_mul ex_upper_unscaled 5]
   \<and> binary64 ex_upper_unscaled = ex_upper_unscaled \<and> binary64 ex_lower_new = ex_lower_new
   \<and> ex_upper_unscaled < ex_lower_new
   \<and> osqp_update_lower_bound ex_settings ex_work_round [ex_lower_new] =
       Inr (0, ex_work_round\<lparr>data := (data ex_work_round)\<lparr>lA := [17 / 2]\<rparr>\<rparr>)"
proof -
  have "ex_upper_unscaled < ex_lower_new"
    by (simp add: ex_upper_unscaled_def ex_lower_new_def)
  moreover have "osqp_update_lower_bound ex_settings ex_work_round [ex_lower_new] =
       Inr (0, ex_work_round\<lparr>data := (data ex_work_round)\<lparr>lA := [17 / 2]\<rparr>\<rparr>)"
    by (simp add: ex_defs osqp_update_lower_bound_def lower_loop_flag prea_vec_copy_def
        vec_ew_prod_def ex_products_round)
  moreover have "Settings.scaling ex_settings \<noteq> 0
     \<and> Work.scaling ex_work_round = Some ex_scaling_round \<and> E ex_scaling_round = [5]
     \<and> m (data ex_work_round) = 1
     \<and> uA (data ex_work_round) = [c_float_mul ex_upper_unscaled 5]"
    by (simp add: ex_defs ex_products_round)
  ultimately show ?thesis using ex_representable(1,2) by blast
qed

text \<open>
  C9, amended: when the update multiplies the new bound by \<open>E\<close> (its scaling branch is
  taken), every entry of \<open>E\<close> is strictly positive and the stored other bound is the
  \<^verbatim>\<open>c_float\<close> product of the unscaled other bound with \<open>E\<close>, then the comparison is made on
  the scaled vectors as stored (the rounded products), and a nonzero flag implies
  that the unscaled elementwise comparison of the new bound with the other bound finds
  a violation too. The converse is not claimed: rounding can give two different
  unscaled values the same product.
\<close>

theorem scaled_check_implies_unscaled:
  assumes "Settings.scaling gs \<noteq> 0" and "Work.scaling w = Some sc"
    and "\<forall>i<nat (m (data w)). 0 < E sc ! i"
    and "length (lA (data w)) = nat (m (data w))"
    and "length (uA (data w)) = nat (m (data w))"
    and "\<forall>i<nat (m (data w)). lA (data w) ! i = c_float_mul (lU ! i) (E sc ! i)"
    and "\<forall>i<nat (m (data w)). uA (data w) ! i = c_float_mul (uU ! i) (E sc ! i)"
  shows "(\<exists>flag w'. osqp_update_lower_bound gs w v1 = Inr (flag, w')
          \<and> (\<forall>i<nat (m (data w)). lA (data w') ! i = c_float_mul (v1 ! i) (E sc ! i)
                \<and> uA (data w') ! i = c_float_mul (uU ! i) (E sc ! i))
          \<and> (flag \<noteq> 0 \<longleftrightarrow> (\<exists>i<nat (m (data w)).
                c_float_mul (v1 ! i) (E sc ! i) > c_float_mul (uU ! i) (E sc ! i)))
          \<and> (flag \<noteq> 0 \<longrightarrow> (\<exists>i<nat (m (data w)). v1 ! i > uU ! i)))
       \<and> (\<exists>flag w'. osqp_update_upper_bound gs w v2 = Inr (flag, w')
          \<and> (\<forall>i<nat (m (data w)). uA (data w') ! i = c_float_mul (v2 ! i) (E sc ! i)
                \<and> lA (data w') ! i = c_float_mul (lU ! i) (E sc ! i))
          \<and> (flag \<noteq> 0 \<longleftrightarrow> (\<exists>i<nat (m (data w)).
                c_float_mul (v2 ! i) (E sc ! i) < c_float_mul (lU ! i) (E sc ! i)))
          \<and> (flag \<noteq> 0 \<longrightarrow> (\<exists>i<nat (m (data w)). v2 ! i < lU ! i)))"
  using lower_scaled_flag [OF assms(1,2,3,4,7), of v1] upper_scaled_flag [OF assms(1,2,3,5,6), of v2]
  by blast

theorem scaled_check_implies_unscaled_witness:
  "Settings.scaling ex_settings \<noteq> 0 \<and> Work.scaling ex_work = Some ex_scaling
   \<and> E ex_scaling = [2] \<and> m (data ex_work) = 1
   \<and> lA (data ex_work) = [c_float_mul 1 2] \<and> uA (data ex_work) = [c_float_mul 3 2]
   \<and> (\<exists>w'. osqp_update_lower_bound ex_settings ex_work [4] = Inr (1, w'))
   \<and> (\<exists>w'. osqp_update_upper_bound ex_settings ex_work [1 / 2] = Inr (1, w'))
   \<and> (4 :: real) > 3 \<and> (1 / 2 :: real) < 1"
proof -
  have hyp: "Settings.scaling ex_settings \<noteq> 0" "Work.scaling ex_work = Some ex_scaling"
    "\<forall>i<nat (m (data ex_work)). 0 < E ex_scaling ! i"
    "length (lA (data ex_work)) = nat (m (data ex_work))"
    "length (uA (data ex_work)) = nat (m (data ex_work))"
    "\<forall>i<nat (m (data ex_work)). lA (data ex_work) ! i = c_float_mul ([1] ! i) (E ex_scaling ! i)"
    "\<forall>i<nat (m (data ex_work)). uA (data ex_work) ! i = c_float_mul ([3] ! i) (E ex_scaling ! i)"
    by (simp_all add: ex_defs ex_products)
  have lo: "\<exists>w'. osqp_update_lower_bound ex_settings ex_work [4] = Inr (1, w')"
    by (simp add: ex_defs osqp_update_lower_bound_def lower_loop_flag prea_vec_copy_def
        vec_ew_prod_def ex_products)
  have up: "\<exists>w'. osqp_update_upper_bound ex_settings ex_work [1 / 2] = Inr (1, w')"
    by (simp add: ex_defs osqp_update_upper_bound_def upper_loop_flag prea_vec_copy_def
        vec_ew_prod_def ex_products)
  have st: "E ex_scaling = [2]" "m (data ex_work) = 1"
    "lA (data ex_work) = [c_float_mul 1 2]" "uA (data ex_work) = [c_float_mul 3 2]"
    by (simp_all add: ex_defs ex_products)
  from scaled_check_implies_unscaled [OF hyp, of "[4]" "[1 / 2]"] hyp(1,2) lo up st
  show ?thesis by simp
qed

section \<open>Updating the linear cost\<close>

lemma update_lin_cost_effect:
  assumes "osqp_update_lin_cost gs w v = Inr (flag, w')"
  shows "flag = 0 \<and> priv w' = priv w \<and> settings w' = settings w \<and> Work.scaling w' = Work.scaling w
         \<and> (\<exists>q'. w' = w\<lparr>data := (data w)\<lparr>q := q'\<rparr>\<rparr>)"
  using assms
  by (auto simp: osqp_update_lin_cost_def Let_def split: if_splits option.splits)

text \<open>
  C3: \<^verbatim>\<open>osqp_update_lin_cost\<close> decides on the \<open>D\<close> scaling from the free symbol
  \<^verbatim>\<open>settings\<close>, not from \<^verbatim>\<open>work->settings\<close>. In the workspace \<open>ex_work\<close> scaling is active
  (\<open>work->settings->scaling = 1\<close>, \<open>D = [2]\<close>); with a \<^verbatim>\<open>settings\<close> object whose \<^verbatim>\<open>scaling\<close> is 0
  the new cost \<open>[3]\<close> is stored unscaled, where the scaled cost is \<open>[6]\<close>; and with a
  \<^verbatim>\<open>settings\<close> object whose \<^verbatim>\<open>scaling\<close> is 1 and a workspace set up without scaling the
  function dereferences the null \<^verbatim>\<open>work->scaling\<close>.
\<close>

theorem update_lin_cost_reads_free_settings:
  "Settings.scaling (settings ex_work) = 1
   \<and> Work.scaling ex_work = Some ex_scaling
   \<and> osqp_update_lin_cost (ex_settings\<lparr>Settings.scaling := 0\<rparr>) ex_work [3] =
       Inr (0, ex_work\<lparr>data := (data ex_work)\<lparr>q := [3]\<rparr>\<rparr>)
   \<and> vec_ew_prod (D ex_scaling) [3] (n (data ex_work)) = [6]
   \<and> osqp_update_lin_cost ex_settings (ex_work\<lparr>Work.scaling := None\<rparr>) [3] =
       Inl Null_pointer_dereference"
  by (simp add: ex_defs osqp_update_lin_cost_def prea_vec_copy_def vec_ew_prod_def ex_products)

section \<open>Properties of the setup\<close>

lemma setup_succeeds:
  assumes "validate_data ext d = 0" and "validate_settings ext s = 0" and "calloc_Work_ok ext"
  shows "\<exists>w l. osqp_setup ext d s = (Inr (Some w), l)"
  using assms by (simp add: osqp_setup_def Let_def split: prod.splits)

lemma setup_success_iff:
  "(\<exists>w l. osqp_setup ext d s = (Inr (Some w), l)) \<longleftrightarrow>
     validate_data ext d = 0 \<and> validate_settings ext s = 0 \<and> calloc_Work_ok ext"
  by (auto simp: osqp_setup_def Let_def split: prod.splits if_splits)

text \<open>
  C5: when \<^verbatim>\<open>validate_data\<close> or \<^verbatim>\<open>validate_settings\<close> reports a failure, \<^verbatim>\<open>osqp_setup\<close>
  returns \<^verbatim>\<open>OSQP_NULL\<close> and has issued no memory request; and when it returns a workspace,
  both validations have passed.
\<close>

theorem setup_validation_failure:
  "(validate_data ext d \<noteq> 0 \<or> validate_settings ext s \<noteq> 0 \<longrightarrow>
      osqp_setup ext d s = (Inr None, []))
   \<and> (osqp_setup ext d s = (Inr (Some w), l) \<longrightarrow>
      validate_data ext d = 0 \<and> validate_settings ext s = 0)"
  by (auto simp: osqp_setup_def Let_def split: prod.splits if_splits)

theorem setup_validation_failure_witness:
  "validate_data ex_ext (ex_data\<lparr>n := 0\<rparr>) \<noteq> 0
   \<and> osqp_setup ex_ext (ex_data\<lparr>n := 0\<rparr>) ex_settings = (Inr None, [])
   \<and> validate_settings ex_ext (ex_settings\<lparr>rho := 0\<rparr>) \<noteq> 0
   \<and> osqp_setup ex_ext ex_data (ex_settings\<lparr>rho := 0\<rparr>) = (Inr None, [])
   \<and> (\<exists>w l. osqp_setup ex_ext ex_data ex_settings = (Inr (Some w), l))
   \<and> validate_data ex_ext ex_data = 0 \<and> validate_settings ex_ext ex_settings = 0"
proof -
  obtain w l where ret: "osqp_setup ex_ext ex_data ex_settings = (Inr (Some w), l)"
    using setup_succeeds [of ex_ext ex_data ex_settings] by (auto simp: ex_defs)
  have "validate_data ex_ext ex_data = 0 \<and> validate_settings ex_ext ex_settings = 0"
    using setup_validation_failure [of ex_ext ex_data ex_settings w l] ret by simp
  moreover have "validate_data ex_ext (ex_data\<lparr>n := 0\<rparr>) \<noteq> 0"
    by (simp add: ex_defs)
  moreover have "validate_settings ex_ext (ex_settings\<lparr>rho := 0\<rparr>) \<noteq> 0"
    by (simp add: ex_defs)
  moreover have "osqp_setup ex_ext (ex_data\<lparr>n := 0\<rparr>) ex_settings = (Inr None, [])"
    using setup_validation_failure [of ex_ext "ex_data\<lparr>n := 0\<rparr>" ex_settings]
    by (simp add: ex_defs)
  moreover have "osqp_setup ex_ext ex_data (ex_settings\<lparr>rho := 0\<rparr>) = (Inr None, [])"
    using setup_validation_failure [of ex_ext ex_data "ex_settings\<lparr>rho := 0\<rparr>"]
    by (simp add: ex_defs)
  ultimately show ?thesis
    using ret by blast
qed

text \<open>
  C6: with data and settings that pass validation and a \<^verbatim>\<open>c_calloc\<close> that fails for the
  workspace, \<^verbatim>\<open>osqp_setup\<close> does not return \<^verbatim>\<open>OSQP_NULL\<close>: the test \<^verbatim>\<open>if (!work)\<close> has no \<^verbatim>\<open>return\<close>,
  and the function goes on to request the memory of the problem data and to store
  through the null pointer.
\<close>

theorem setup_continues_after_failed_calloc:
  "validate_data (ex_ext\<lparr>calloc_Work_ok := False\<rparr>) ex_data = 0
   \<and> validate_settings (ex_ext\<lparr>calloc_Work_ok := False\<rparr>) ex_settings = 0
   \<and> osqp_setup (ex_ext\<lparr>calloc_Work_ok := False\<rparr>) ex_data ex_settings =
       (Inl Null_pointer_dereference, [C_calloc T_Work 1, C_malloc T_Data 1])"
  by (simp add: ex_defs osqp_setup_def)

text \<open>
  C7: for a problem with \<open>m = 0\<close> that passes validation (and a workspace allocation that
  succeeds), \<^verbatim>\<open>osqp_setup\<close> returns a workspace whose settings have \<^verbatim>\<open>polishing\<close> equal to 0,
  whatever value the caller's settings hold.
\<close>

theorem setup_no_constraints_polishing_off:
  assumes "m d = 0"
    and "validate_data ext d = 0" and "validate_settings ext s = 0" and "calloc_Work_ok ext"
  shows "\<exists>w l. osqp_setup ext d s = (Inr (Some w), l) \<and> polishing (settings w) = 0"
  using assms by (simp add: osqp_setup_def Let_def split: prod.splits)

theorem setup_no_constraints_polishing_off_witness:
  "m (ex_data\<lparr>m := 0, lA := [], uA := []\<rparr>) = 0 \<and> polishing ex_settings = 1
   \<and> validate_data ex_ext (ex_data\<lparr>m := 0, lA := [], uA := []\<rparr>) = 0
   \<and> validate_settings ex_ext ex_settings = 0 \<and> calloc_Work_ok ex_ext
   \<and> (\<exists>w l. osqp_setup ex_ext (ex_data\<lparr>m := 0, lA := [], uA := []\<rparr>) ex_settings = (Inr (Some w), l)
         \<and> polishing (settings w) = 0)"
  using setup_no_constraints_polishing_off [of "ex_data\<lparr>m := 0, lA := [], uA := []\<rparr>" ex_ext ex_settings]
  by (simp add: ex_defs)

text \<open>
  C10: in every workspace that \<^verbatim>\<open>osqp_setup\<close> returns, \<^verbatim>\<open>info->status_val\<close> is
  \<^verbatim>\<open>OSQP_UNSOLVED\<close>, \<^verbatim>\<open>info->status\<close> is the text of that status, and \<open>x\<close>, \<open>z\<close> (of length
  \<open>n + m\<close>) and \<open>u\<close> (of length \<open>m\<close>) hold zeros only.
\<close>

theorem setup_initial_state:
  assumes "osqp_setup ext d s = (Inr (Some w), l)"
  shows "status_val (info w) = OSQP_UNSOLVED
       \<and> status (info w) = status_text ext OSQP_UNSOLVED
       \<and> x w = replicate (nat (n d + m d)) 0
       \<and> z w = replicate (nat (n d + m d)) 0
       \<and> u w = replicate (nat (m d)) 0"
  using assms
  by (auto simp: osqp_setup_def Let_def update_status_string_def c_calloc_float_def
      split: prod.splits if_splits)

theorem setup_initial_state_witness:
  "\<exists>w l. osqp_setup ex_ext ex_data ex_settings = (Inr (Some w), l)
     \<and> status_val (info w) = OSQP_UNSOLVED \<and> status (info w) = ''Unsolved''
     \<and> x w = [0, 0] \<and> z w = [0, 0] \<and> u w = [0]"
proof -
  obtain w l where ret: "osqp_setup ex_ext ex_data ex_settings = (Inr (Some w), l)"
    using setup_succeeds [of ex_ext ex_data ex_settings] by (auto simp: ex_defs)
  from setup_initial_state [OF ret] have
    "status_val (info w) = OSQP_UNSOLVED \<and> status (info w) = ''Unsolved''
     \<and> x w = [0, 0] \<and> z w = [0, 0] \<and> u w = [0]"
    by (simp add: ex_defs numeral_2_eq_2)
  with ret show ?thesis by blast
qed

section \<open>The ADMM loop\<close>

lemma admm_iteration_effect:
  "admm_iteration ext it (w, tr) =
     (fst (iteration_effect ext it w),
      snd (iteration_effect ext it w), tr @ iteration_calls it (fst (iteration_effect ext it w)))"
  by (simp add: admm_iteration_def iteration_effect_def Let_def step_def iteration_calls_def)

lemma admm_iteration_trace:
  "snd (snd (admm_iteration ext it s)) = snd s @ iteration_calls it (fst (admm_iteration ext it s))"
  by (simp add: admm_iteration_def Let_def step_def iteration_calls_def)

lemma admm_iteration_max_iter:
  assumes "ext_keeps_max_iter ext"
  shows "max_iter (settings (fst (snd (admm_iteration ext it s)))) = max_iter (settings (fst s))"
  using assms
  by (simp add: ext_keeps_max_iter_def keeps_max_iter_def admm_iteration_def Let_def step_def)

lemma loop_stop:
  "\<not> it < max_iter (settings (fst s)) \<Longrightarrow> osqp_solve_loop ext it s = Some s"
  by (subst osqp_solve_loop.simps) simp

lemma loop_break:
  "it < max_iter (settings (fst s)) \<Longrightarrow> fst (admm_iteration ext it s) \<noteq> 0 \<Longrightarrow>
     osqp_solve_loop ext it s = Some (snd (admm_iteration ext it s))"
  by (subst osqp_solve_loop.simps) (simp add: case_prod_beta)

lemma loop_continue:
  "it < max_iter (settings (fst s)) \<Longrightarrow> fst (admm_iteration ext it s) = 0 \<Longrightarrow>
     osqp_solve_loop ext it s = osqp_solve_loop ext (it + 1) (snd (admm_iteration ext it s))"
  by (subst osqp_solve_loop.simps) (simp add: case_prod_beta)

lemma loop_trace_shape:
  assumes ret: "osqp_solve_loop ext it s = Some y"
  shows "\<exists>rs. snd y = snd s @ loop_calls it rs"
proof -
  let ?Q = "\<lambda>(e :: 'p ext) (i :: int) (t :: 'p Work \<times> call list) (r :: 'p Work \<times> call list).
              \<exists>rs. snd r = snd t @ loop_calls i rs"
  have step: "?Q e i t r"
    if IH: "\<And>e i t r. f e i t = Some r \<Longrightarrow> ?Q e i t r"
      and body: "(if i < max_iter (settings (fst t))
                  then case admm_iteration e i t of
                         (flag, s') \<Rightarrow> if flag \<noteq> 0 then Some s' else f e (i + 1) s'
                  else Some t) = Some r"
    for f e i t r
  proof (cases "i < max_iter (settings (fst t))")
    case False
    with body have "r = t" by simp
    then have "snd r = snd t @ loop_calls i []" by simp
    then show ?thesis ..
  next
    case True
    note lt = this
    show ?thesis
    proof (cases "fst (admm_iteration e i t) = 0")
      case False
      with lt body have "r = snd (admm_iteration e i t)"
        by (simp add: case_prod_beta)
      then have "snd r = snd t @ loop_calls i [fst (admm_iteration e i t)]"
        by (simp add: admm_iteration_trace)
      then show ?thesis ..
    next
      case True
      with lt body have "f e (i + 1) (snd (admm_iteration e i t)) = Some r"
        by (simp add: case_prod_beta)
      from IH [OF this] obtain rs where
        "snd r = snd (snd (admm_iteration e i t)) @ loop_calls (i + 1) rs" ..
      then have "snd r = snd t @ loop_calls i (0 # rs)"
        using True by (simp add: admm_iteration_trace)
      then show ?thesis ..
    qed
  qed
  from osqp_solve_loop.raw_induct [of ?Q, OF step ret] show ?thesis .
qed

lemma set_iteration_calls:
  "Call_polish \<notin> set (iteration_calls it r)"
  by (simp add: iteration_calls_def)

lemma set_loop_calls: "Call_polish \<notin> set (loop_calls it rs)"
  by (induction rs arbitrary: it) (simp_all add: set_iteration_calls)

lemma length_iterations_flags [simp]: "length (iterations_flags ext it k w) = k"
  by (induction k arbitrary: it w) simp_all

lemma loop_char:
  assumes frame: "ext_keeps_max_iter ext"
  shows "\<exists>k. osqp_solve_loop ext it (w, tr) =
               Some (iterations_effect ext it k w, tr @ loop_calls it (iterations_flags ext it k w))
           \<and> int k \<le> max 0 (max_iter (settings w) - it)
           \<and> (\<forall>r\<in>set (butlast (iterations_flags ext it k w)). r = 0)
           \<and> (it + int k < max_iter (settings w) \<longrightarrow>
                0 < k \<and> last (iterations_flags ext it k w) \<noteq> 0)"
proof (induction "nat (max_iter (settings w) - it)" arbitrary: it w tr)
  case 0
  then have "\<not> it < max_iter (settings (fst (w, tr)))" by simp
  then have "osqp_solve_loop ext it (w, tr) =
      Some (iterations_effect ext it 0 w, tr @ loop_calls it (iterations_flags ext it 0 w))"
    by (simp add: loop_stop)
  moreover have "\<not> it + int 0 < max_iter (settings w)" using 0 by simp
  ultimately show ?case by (intro exI [of _ 0]) simp
next
  case (Suc j)
  let ?flag = "fst (iteration_effect ext it w)"
  let ?w1 = "snd (iteration_effect ext it w)"
  from Suc(2) have lt: "it < max_iter (settings (fst (w, tr)))" by simp
  have it1: "admm_iteration ext it (w, tr) = (?flag, ?w1, tr @ iteration_calls it ?flag)"
    by (rule admm_iteration_effect)
  have mi: "max_iter (settings ?w1) = max_iter (settings w)"
    using admm_iteration_max_iter [OF frame, of it "(w, tr)"] it1 by simp
  show ?case
  proof (cases "?flag = 0")
    case False
    have "osqp_solve_loop ext it (w, tr) =
        Some (iterations_effect ext it (Suc 0) w,
              tr @ loop_calls it (iterations_flags ext it (Suc 0) w))"
      using loop_break [OF lt] False it1 by simp
    moreover have "int (Suc 0) \<le> max 0 (max_iter (settings w) - it)"
      using lt by simp
    ultimately show ?thesis
      using False by (intro exI [of _ "Suc 0"]) simp
  next
    case True
    have j: "j = nat (max_iter (settings ?w1) - (it + 1))" using Suc(2) mi by simp
    from Suc(1) [OF j, of "tr @ iteration_calls it ?flag"] obtain k where
      ih: "osqp_solve_loop ext (it + 1) (?w1, tr @ iteration_calls it ?flag) =
             Some (iterations_effect ext (it + 1) k ?w1,
                   (tr @ iteration_calls it ?flag)
                     @ loop_calls (it + 1) (iterations_flags ext (it + 1) k ?w1))"
        "int k \<le> max 0 (max_iter (settings ?w1) - (it + 1))"
        "\<forall>r\<in>set (butlast (iterations_flags ext (it + 1) k ?w1)). r = 0"
        "it + 1 + int k < max_iter (settings ?w1) \<longrightarrow>
           0 < k \<and> last (iterations_flags ext (it + 1) k ?w1) \<noteq> 0"
      by blast
    have "osqp_solve_loop ext it (w, tr) =
        Some (iterations_effect ext it (Suc k) w,
              tr @ loop_calls it (iterations_flags ext it (Suc k) w))"
      using loop_continue [OF lt] it1 ih(1) True by simp
    moreover have "int (Suc k) \<le> max 0 (max_iter (settings w) - it)"
      using ih(2) lt mi by simp
    moreover have "\<forall>r\<in>set (butlast (iterations_flags ext it (Suc k) w)). r = 0"
      using ih(3) True by simp
    moreover have "it + int (Suc k) < max_iter (settings w) \<longrightarrow>
        0 < Suc k \<and> last (iterations_flags ext it (Suc k) w) \<noteq> 0"
    proof
      assume "it + int (Suc k) < max_iter (settings w)"
      then have "it + 1 + int k < max_iter (settings ?w1)" using mi by simp
      with ih(4) have k: "0 < k" "last (iterations_flags ext (it + 1) k ?w1) \<noteq> 0" by simp_all
      from k(1) obtain k' where "k = Suc k'" by (cases k) auto
      then have "iterations_flags ext (it + 1) k ?w1 \<noteq> []" by simp
      with k(2) show "0 < Suc k \<and> last (iterations_flags ext it (Suc k) w) \<noteq> 0" by simp
    qed
    ultimately show ?thesis by (intro exI [of _ "Suc k"]) blast
  qed
qed

lemma finish_effect:
  "\<exists>post. osqp_solve_finish ext (w1, tr) = (solve_exit_effect ext w1, tr @ post)
      \<and> (post = [Call_update_status_string, Call_store_solution]
           \<or> post = [Call_update_status_string, Call_polish, Call_store_solution])
      \<and> (Call_polish \<in> set post \<longleftrightarrow>
            polishing (settings w1) \<noteq> 0 \<and> status_val (info w1) = OSQP_SOLVED)"
  by (simp add: osqp_solve_finish_def solve_exit_effect_def Let_def step_def
      update_status_string_def)

lemma start_effect:
  "osqp_solve_start ext work =
     (solve_entry_effect ext work, if warm_start (settings work) = 0 then [Call_cold_start] else [])"
  by (simp add: osqp_solve_start_def solve_entry_effect_def step_def)

lemma start_max_iter:
  "ext_keeps_max_iter ext \<Longrightarrow>
     max_iter (settings (solve_entry_effect ext work)) = max_iter (settings work)"
  by (simp add: solve_entry_effect_def ext_keeps_max_iter_def keeps_max_iter_def)

lemma ex_ext_keeps_max_iter: "ext_keeps_max_iter ex_ext"
  by (simp add: ext_keeps_max_iter_def keeps_max_iter_def ex_ext_def ex_residuals_check_def)

lemma ex_loop:
  "osqp_solve_loop ex_ext 0 (osqp_solve_start ex_ext ex_work) =
     Some (ex_work\<lparr>x := [15, 15], z := [15, 15], u := [40], z_prev := [5, 5],
                   info := ex_info\<lparr>iter := 2, status_val := OSQP_SOLVED\<rparr>\<rparr>,
           [Call_cold_start] @ loop_calls 0 [0, 1])"
  by (simp add: osqp_solve_loop.simps osqp_solve_start_def step_def admm_iteration_def Let_def
      iteration_calls_def prea_vec_copy_def ex_defs)

lemma ex_loop_one:
  "osqp_solve_loop ex_ext 0
       (osqp_solve_start ex_ext (ex_work\<lparr>settings := ex_settings\<lparr>max_iter := 1\<rparr>\<rparr>)) =
     Some (ex_work\<lparr>settings := ex_settings\<lparr>max_iter := 1\<rparr>,
                   x := [5, 5], z := [5, 5], u := [10], z_prev := [0, 0],
                   info := ex_info\<lparr>iter := 1\<rparr>\<rparr>,
           [Call_cold_start] @ loop_calls 0 [0])"
  by (simp add: osqp_solve_loop.simps osqp_solve_start_def step_def admm_iteration_def Let_def
      iteration_calls_def prea_vec_copy_def ex_defs)

lemma ex_solve:
  "osqp_solve ex_ext ex_work =
     Some (0, ex_work\<lparr>x := [15, 15], z := [15, 15], u := [40], z_prev := [5, 5],
                      pol := (pol ex_work)\<lparr>Polish.x := [15]\<rparr>,
                      solution := \<lparr>Solution.x = [15], lambda = [40]\<rparr>,
                      info := ex_info\<lparr>iter := 2, status := ''Solved'', status_val := OSQP_SOLVED\<rparr>\<rparr>,
           [Call_cold_start] @ loop_calls 0 [0, 1]
             @ [Call_update_status_string, Call_polish, Call_store_solution])"
  by (simp add: osqp_solve_def ex_loop osqp_solve_finish_def Let_def step_def
      update_status_string_def)
     (simp add: ex_defs)

lemma ex_solve_one:
  "osqp_solve ex_ext (ex_work\<lparr>settings := ex_settings\<lparr>max_iter := 1\<rparr>\<rparr>) =
     Some (0, ex_work\<lparr>settings := ex_settings\<lparr>max_iter := 1\<rparr>,
                      x := [5, 5], z := [5, 5], u := [10], z_prev := [0, 0],
                      solution := \<lparr>Solution.x = [5], lambda = [10]\<rparr>,
                      info := ex_info\<lparr>iter := 1, status := ''Unsolved''\<rparr>\<rparr>,
           [Call_cold_start] @ loop_calls 0 [0]
             @ [Call_update_status_string, Call_store_solution])"
  by (simp add: osqp_solve_def ex_loop_one osqp_solve_finish_def Let_def step_def
      update_status_string_def)
     (simp add: ex_defs)

text \<open>
  C1: provided the collaborators leave \<^verbatim>\<open>max_iter\<close> alone, \<^verbatim>\<open>osqp_solve\<close> returns after some
  number \<open>k\<close> of iterations, at most \<^verbatim>\<open>max_iter\<close>. The workspace it leaves is the one obtained
  from the cold start (unless warm start is set) by \<open>k\<close> iterations numbered from 0, each
  applying in this order the copy of \<open>z\<close> into \<open>z_prev\<close>, \<^verbatim>\<open>compute_rhs\<close>, \<^verbatim>\<open>solve_lin_sys\<close> into
  \<open>x\<close>, \<^verbatim>\<open>update_x\<close>, \<^verbatim>\<open>project_x\<close>, \<^verbatim>\<open>update_u\<close>, \<^verbatim>\<open>update_info\<close> and \<^verbatim>\<open>residuals_check\<close>, followed by
  the closing steps; the calls made are these and no others, in this order. The
  check returned 0 in every iteration but the last, and if fewer than \<^verbatim>\<open>max_iter\<close>
  iterations ran, the last check returned a nonzero flag: the loop stops at the first
  check that passes.
\<close>

theorem osqp_solve_iterations:
  assumes "ext_keeps_max_iter ext"
  shows "\<exists>k post.
      osqp_solve ext work =
        Some (0, solve_exit_effect ext (iterations_effect ext 0 k (solve_entry_effect ext work)),
              (if warm_start (settings work) = 0 then [Call_cold_start] else [])
                @ loop_calls 0 (iterations_flags ext 0 k (solve_entry_effect ext work)) @ post)
      \<and> (post = [Call_update_status_string, Call_store_solution]
           \<or> post = [Call_update_status_string, Call_polish, Call_store_solution])
      \<and> int k \<le> max 0 (max_iter (settings work))
      \<and> (\<forall>r\<in>set (butlast (iterations_flags ext 0 k (solve_entry_effect ext work))). r = 0)
      \<and> (int k < max_iter (settings work) \<longrightarrow>
            0 < k \<and> last (iterations_flags ext 0 k (solve_entry_effect ext work)) \<noteq> 0)"
proof -
  let ?w0 = "solve_entry_effect ext work"
  let ?tr0 = "if warm_start (settings work) = 0 then [Call_cold_start] else []"
  have mi: "max_iter (settings ?w0) = max_iter (settings work)"
    by (rule start_max_iter [OF assms])
  from loop_char [OF assms, of 0 ?w0 ?tr0] mi obtain k where
    lp: "osqp_solve_loop ext 0 (?w0, ?tr0) =
           Some (iterations_effect ext 0 k ?w0, ?tr0 @ loop_calls 0 (iterations_flags ext 0 k ?w0))"
      "int k \<le> max 0 (max_iter (settings work))"
      "\<forall>r\<in>set (butlast (iterations_flags ext 0 k ?w0)). r = 0"
      "int k < max_iter (settings work) \<longrightarrow> 0 < k \<and> last (iterations_flags ext 0 k ?w0) \<noteq> 0"
    by auto
  from finish_effect [of ext "iterations_effect ext 0 k ?w0"
      "?tr0 @ loop_calls 0 (iterations_flags ext 0 k ?w0)"] obtain post where
    fin: "osqp_solve_finish ext (iterations_effect ext 0 k ?w0,
                                ?tr0 @ loop_calls 0 (iterations_flags ext 0 k ?w0)) =
            (solve_exit_effect ext (iterations_effect ext 0 k ?w0),
             (?tr0 @ loop_calls 0 (iterations_flags ext 0 k ?w0)) @ post)"
      "post = [Call_update_status_string, Call_store_solution]
         \<or> post = [Call_update_status_string, Call_polish, Call_store_solution]"
    by blast
  have "osqp_solve ext work =
      Some (0, solve_exit_effect ext (iterations_effect ext 0 k ?w0),
            ?tr0 @ loop_calls 0 (iterations_flags ext 0 k ?w0) @ post)"
    using lp(1) fin(1) by (simp add: osqp_solve_def start_effect)
  with fin(2) lp(2,3,4) show ?thesis by blast
qed

theorem osqp_solve_iterations_witness:
  "ext_keeps_max_iter ex_ext \<and> max_iter (settings ex_work) = 3
   \<and> osqp_solve ex_ext ex_work =
       Some (0, ex_work\<lparr>x := [15, 15], z := [15, 15], u := [40], z_prev := [5, 5],
                        pol := (pol ex_work)\<lparr>Polish.x := [15]\<rparr>,
                        solution := \<lparr>Solution.x = [15], lambda = [40]\<rparr>,
                        info := ex_info\<lparr>iter := 2, status := ''Solved'',
                                        status_val := OSQP_SOLVED\<rparr>\<rparr>,
             [Call_cold_start] @ loop_calls 0 [0, 1]
               @ [Call_update_status_string, Call_polish, Call_store_solution])
   \<and> solve_exit_effect ex_ext (iterations_effect ex_ext 0 2 (solve_entry_effect ex_ext ex_work)) =
       ex_work\<lparr>x := [15, 15], z := [15, 15], u := [40], z_prev := [5, 5],
               pol := (pol ex_work)\<lparr>Polish.x := [15]\<rparr>,
               solution := \<lparr>Solution.x = [15], lambda = [40]\<rparr>,
               info := ex_info\<lparr>iter := 2, status := ''Solved'', status_val := OSQP_SOLVED\<rparr>\<rparr>
   \<and> iterations_flags ex_ext 0 2 (solve_entry_effect ex_ext ex_work) = [0, 1]"
proof -
  have frame: "ext_keeps_max_iter ex_ext" by (rule ex_ext_keeps_max_iter)
  from osqp_solve_iterations [OF frame, of ex_work] obtain k post where
    "osqp_solve ex_ext ex_work =
        Some (0, solve_exit_effect ex_ext
                   (iterations_effect ex_ext 0 k (solve_entry_effect ex_ext ex_work)),
              (if warm_start (settings ex_work) = 0 then [Call_cold_start] else [])
                @ loop_calls 0 (iterations_flags ex_ext 0 k (solve_entry_effect ex_ext ex_work))
                @ post)"
    by blast
  have two: "(2::nat) = Suc (Suc 0)" by simp
  have eff: "solve_exit_effect ex_ext
               (iterations_effect ex_ext 0 2 (solve_entry_effect ex_ext ex_work)) =
       ex_work\<lparr>x := [15, 15], z := [15, 15], u := [40], z_prev := [5, 5],
               pol := (pol ex_work)\<lparr>Polish.x := [15]\<rparr>,
               solution := \<lparr>Solution.x = [15], lambda = [40]\<rparr>,
               info := ex_info\<lparr>iter := 2, status := ''Solved'', status_val := OSQP_SOLVED\<rparr>\<rparr>"
    unfolding two
    by (simp add: solve_exit_effect_def solve_entry_effect_def iteration_effect_def Let_def
        update_status_string_def prea_vec_copy_def ex_defs)
  have fl: "iterations_flags ex_ext 0 2 (solve_entry_effect ex_ext ex_work) = [0, 1]"
    unfolding two
    by (simp add: solve_entry_effect_def iteration_effect_def Let_def prea_vec_copy_def ex_defs)
  have "max_iter (settings ex_work) = 3" by (simp add: ex_defs)
  with frame ex_solve eff fl show ?thesis by simp
qed

text \<open>
  C8: whenever the loop of \<^verbatim>\<open>osqp_solve\<close> ends, in a workspace \<open>w1\<close>, the function returns;
  the workspace it returns is \<^verbatim>\<open>store_solution\<close> applied to the polished workspace when
  \<^verbatim>\<open>polishing\<close> is nonzero in \<open>w1\<close> and the status in \<open>w1\<close> is \<^verbatim>\<open>OSQP_SOLVED\<close>, and applied to the
  unpolished one otherwise; and \<^verbatim>\<open>polish\<close> is among the calls made exactly in the first
  case. With status \<^verbatim>\<open>OSQP_MAX_ITER_REACHED\<close> or \<^verbatim>\<open>OSQP_UNSOLVED\<close> it is not called.
\<close>

theorem osqp_solve_polish_iff:
  assumes "osqp_solve_loop ext 0 (osqp_solve_start ext work) = Some (w1, tr1)"
  shows "\<exists>tr. osqp_solve ext work =
           Some (0, store_solution ext
                      (if polishing (settings w1) \<noteq> 0 \<and> status_val (info w1) = OSQP_SOLVED
                       then polish ext (w1\<lparr>info := update_status_string ext (info w1)\<rparr>)
                       else w1\<lparr>info := update_status_string ext (info w1)\<rparr>), tr)
      \<and> (Call_polish \<in> set tr \<longleftrightarrow>
            polishing (settings w1) \<noteq> 0 \<and> status_val (info w1) = OSQP_SOLVED)
      \<and> (status_val (info w1) = OSQP_MAX_ITER_REACHED \<or> status_val (info w1) = OSQP_UNSOLVED
            \<longrightarrow> Call_polish \<notin> set tr)"
proof -
  from loop_trace_shape [OF assms] obtain rs where
    "tr1 = snd (osqp_solve_start ext work) @ loop_calls 0 rs" by auto
  then have no: "Call_polish \<notin> set tr1"
    by (simp add: start_effect set_loop_calls)
  from finish_effect [of ext w1 tr1] obtain post where
    fin: "osqp_solve_finish ext (w1, tr1) = (solve_exit_effect ext w1, tr1 @ post)"
      "Call_polish \<in> set post \<longleftrightarrow>
         polishing (settings w1) \<noteq> 0 \<and> status_val (info w1) = OSQP_SOLVED"
    by blast
  have "osqp_solve ext work = Some (0, solve_exit_effect ext w1, tr1 @ post)"
    using assms fin(1) by (simp add: osqp_solve_def)
  moreover have "Call_polish \<in> set (tr1 @ post) \<longleftrightarrow>
      polishing (settings w1) \<noteq> 0 \<and> status_val (info w1) = OSQP_SOLVED"
    using no fin(2) by simp
  moreover have "solve_exit_effect ext w1 =
      store_solution ext
        (if polishing (settings w1) \<noteq> 0 \<and> status_val (info w1) = OSQP_SOLVED
         then polish ext (w1\<lparr>info := update_status_string ext (info w1)\<rparr>)
         else w1\<lparr>info := update_status_string ext (info w1)\<rparr>)"
    by (simp add: solve_exit_effect_def Let_def)
  ultimately show ?thesis by auto
qed

theorem osqp_solve_polish_iff_witness:
  "(\<exists>w1 tr1 w' tr. osqp_solve_loop ex_ext 0 (osqp_solve_start ex_ext ex_work) = Some (w1, tr1)
       \<and> polishing (settings w1) = 1 \<and> status_val (info w1) = OSQP_SOLVED
       \<and> osqp_solve ex_ext ex_work = Some (0, w', tr) \<and> Call_polish \<in> set tr
       \<and> Polish.x (pol w1) = [0] \<and> x w1 = [15, 15] \<and> Polish.x (pol w') = [15])
   \<and> (\<exists>w1 tr1 w' tr.
         osqp_solve_loop ex_ext 0
           (osqp_solve_start ex_ext (ex_work\<lparr>settings := ex_settings\<lparr>max_iter := 1\<rparr>\<rparr>)) =
           Some (w1, tr1)
       \<and> polishing (settings w1) = 1 \<and> status_val (info w1) = OSQP_UNSOLVED
       \<and> osqp_solve ex_ext (ex_work\<lparr>settings := ex_settings\<lparr>max_iter := 1\<rparr>\<rparr>) = Some (0, w', tr)
       \<and> Call_polish \<notin> set tr
       \<and> Polish.x (pol w1) = [0] \<and> x w1 = [5, 5] \<and> Polish.x (pol w') = [0])"
proof
  let ?w1 = "ex_work\<lparr>x := [15, 15], z := [15, 15], u := [40], z_prev := [5, 5],
                     info := ex_info\<lparr>iter := 2, status_val := OSQP_SOLVED\<rparr>\<rparr>"
  have st: "polishing (settings ?w1) = 1" "status_val (info ?w1) = OSQP_SOLVED"
    "Polish.x (pol ?w1) = [0]" "x ?w1 = [15, 15]"
    by (simp_all add: ex_defs)
  from osqp_solve_polish_iff [OF ex_loop] st(1,2) obtain tr where
    ret: "osqp_solve ex_ext ex_work =
            Some (0, store_solution ex_ext
                       (polish ex_ext (?w1\<lparr>info := update_status_string ex_ext (info ?w1)\<rparr>)), tr)"
      "Call_polish \<in> set tr"
    by auto
  have "Polish.x (pol (store_solution ex_ext
          (polish ex_ext (?w1\<lparr>info := update_status_string ex_ext (info ?w1)\<rparr>)))) = [15]"
    by (simp add: ex_defs)
  with ret st ex_loop
  show "\<exists>w1 tr1 w' tr. osqp_solve_loop ex_ext 0 (osqp_solve_start ex_ext ex_work) = Some (w1, tr1)
       \<and> polishing (settings w1) = 1 \<and> status_val (info w1) = OSQP_SOLVED
       \<and> osqp_solve ex_ext ex_work = Some (0, w', tr) \<and> Call_polish \<in> set tr
       \<and> Polish.x (pol w1) = [0] \<and> x w1 = [15, 15] \<and> Polish.x (pol w') = [15]"
    by blast
next
  let ?work = "ex_work\<lparr>settings := ex_settings\<lparr>max_iter := 1\<rparr>\<rparr>"
  let ?w1 = "ex_work\<lparr>settings := ex_settings\<lparr>max_iter := 1\<rparr>,
                     x := [5, 5], z := [5, 5], u := [10], z_prev := [0, 0],
                     info := ex_info\<lparr>iter := 1\<rparr>\<rparr>"
  have st: "polishing (settings ?w1) = 1" "status_val (info ?w1) = OSQP_UNSOLVED"
    "Polish.x (pol ?w1) = [0]" "x ?w1 = [5, 5]"
    by (simp_all add: ex_defs)
  from osqp_solve_polish_iff [OF ex_loop_one] st(1,2) obtain tr where
    ret: "osqp_solve ex_ext ?work =
            Some (0, store_solution ex_ext
                       (?w1\<lparr>info := update_status_string ex_ext (info ?w1)\<rparr>), tr)"
      "Call_polish \<notin> set tr"
    by auto
  have "Polish.x (pol (store_solution ex_ext
          (?w1\<lparr>info := update_status_string ex_ext (info ?w1)\<rparr>))) = [0]"
    by (simp add: ex_defs)
  with ret st ex_loop_one
  show "\<exists>w1 tr1 w' tr. osqp_solve_loop ex_ext 0 (osqp_solve_start ex_ext ?work) = Some (w1, tr1)
       \<and> polishing (settings w1) = 1 \<and> status_val (info w1) = OSQP_UNSOLVED
       \<and> osqp_solve ex_ext ?work = Some (0, w', tr) \<and> Call_polish \<notin> set tr
       \<and> Polish.x (pol w1) = [0] \<and> x w1 = [5, 5] \<and> Polish.x (pol w') = [0]"
    by blast
qed

end
